theory Spec2Isabelle
  imports Complex_Main
begin

section \<open>Strings\<close>

text \<open>
  The worker is JavaScript (\<^verbatim>\<open>src/index.js\<close>). Its strings are modelled as HOL strings and
  the development covers ASCII text: a character above 127 is an opaque character that is
  neither a digit, a letter nor white space.
\<close>

definition CR :: char where "CR = CHR 0x0D"
definition LF :: char where "LF = CHR 0x0A"
definition TAB :: char where "TAB = CHR 0x09"
definition SP :: char where "SP = CHR '' ''"

definition isDigit :: "char \<Rightarrow> bool" where
  "isDigit c \<longleftrightarrow> c \<in> set ''0123456789''"

text \<open>\<^verbatim>\<open>s.indexOf(c)\<close>, with \<open>None\<close> for \<open>-1\<close>.\<close>

fun indexOf :: "char \<Rightarrow> string \<Rightarrow> nat option" where
  "indexOf c [] = None"
| "indexOf c (x # xs) = (if x = c then Some 0 else map_option Suc (indexOf c xs))"

definition digitVal :: "char \<Rightarrow> nat" where
  "digitVal c = (case indexOf c ''0123456789'' of None \<Rightarrow> 0 | Some n \<Rightarrow> n)"

definition digitChar :: "nat \<Rightarrow> char" where
  "digitChar n = ''0123456789'' ! (n mod 10)"

definition allDigits :: "string \<Rightarrow> bool" where
  "allDigits s \<longleftrightarrow> list_all isDigit s"

text \<open>The decimal value of a run of digits, and a number written with exactly \<open>k\<close> digits.\<close>

definition natOfDigits :: "string \<Rightarrow> nat" where
  "natOfDigits s = foldl (\<lambda>a c. 10 * a + digitVal c) 0 s"

fun pad :: "nat \<Rightarrow> nat \<Rightarrow> string" where
  "pad 0 n = []"
| "pad (Suc k) n = pad k (n div 10) @ [digitChar (n mod 10)]"

text \<open>\<^verbatim>\<open>s.slice(a, b)\<close> for \<open>0 \<le> a \<le> b\<close>; both ends are cut at the length of the string.\<close>

definition slice :: "nat \<Rightarrow> nat \<Rightarrow> string \<Rightarrow> string" where
  "slice a b s = take (b - a) (drop a s)"

definition startsWith :: "string \<Rightarrow> string \<Rightarrow> bool" where
  "startsWith p s \<longleftrightarrow> take (length p) s = p"

definition endsWith :: "string \<Rightarrow> string \<Rightarrow> bool" where
  "endsWith p s \<longleftrightarrow> length p \<le> length s \<and> drop (length s - length p) s = p"

definition upperChar :: "char \<Rightarrow> char" where
  "upperChar c =
     (case map_of (zip ''abcdefghijklmnopqrstuvwxyz'' ''ABCDEFGHIJKLMNOPQRSTUVWXYZ'') c of
        Some u \<Rightarrow> u | None \<Rightarrow> c)"

definition toUpperCase :: "string \<Rightarrow> string" where
  "toUpperCase s = map upperChar s"

text \<open>White space as \<^verbatim>\<open>\s\<close> and \<^verbatim>\<open>trim()\<close> see it, within ASCII.\<close>

definition isSpace :: "char \<Rightarrow> bool" where
  "isSpace c \<longleftrightarrow> c \<in> {TAB, LF, CHR 0x0B, CHR 0x0C, CR, SP}"

definition trim :: "string \<Rightarrow> string" where
  "trim s = rev (dropWhile isSpace (rev (dropWhile isSpace s)))"

section \<open>The runtime: errors, clock, time zone\<close>

datatype js_error = RangeError | TypeError | NetworkError

definition bindE :: "js_error + 'a \<Rightarrow> ('a \<Rightarrow> js_error + 'b) \<Rightarrow> js_error + 'b" where
  "bindE m f = (case m of Inl e \<Rightarrow> Inl e | Inr v \<Rightarrow> f v)"

text \<open>
  A JavaScript number that can be \<open>NaN\<close> or infinite. Finite numbers are rationals: the
  arithmetic the worker does on them (comparison, minimum, maximum, truncation) is exact.
\<close>

datatype jsnum = Fin rat | NaN | PosInf | NegInf

text \<open>
  What the worker takes from its runtime. \<open>now\<close> is the clock, in milliseconds since the
  epoch. The local time zone is the pair of offsets of ECMAScript's \<open>LocalTZA\<close>, in minutes
  east of UTC: \<open>offsetAtUTC t\<close> at the UTC instant \<open>t\<close>, \<open>offsetAtLocal t\<close> for the local time
  value \<open>t\<close>. A zone with a fixed offset has both constant and equal. \<open>implParse\<close> is
  \<^verbatim>\<open>Date.parse\<close> on strings outside the ECMAScript date-time format, where the result is
  left to the implementation, and \<open>toNumber\<close> is \<^verbatim>\<open>Number(string)\<close>.
\<close>

record runtime =
  now :: int
  offsetAtUTC :: "int \<Rightarrow> int"
  offsetAtLocal :: "int \<Rightarrow> int"
  implParse :: "string \<Rightarrow> int option"
  toNumber :: "string \<Rightarrow> jsnum"

section \<open>ECMAScript dates\<close>

text \<open>A time value is an integral number of milliseconds, or \<open>NaN\<close> (\<open>None\<close>).\<close>

type_synonym timevalue = "int option"

definition msPerDay :: int where "msPerDay = 86400000"

definition dayFromYear :: "int \<Rightarrow> int" where
  "dayFromYear y = 365 * (y - 1970) + (y - 1969) div 4 - (y - 1901) div 100 + (y - 1601) div 400"

definition inLeapYear :: "int \<Rightarrow> bool" where
  "inLeapYear y \<longleftrightarrow> (y mod 4 = 0 \<and> y mod 100 \<noteq> 0) \<or> y mod 400 = 0"

text \<open>The day within the year on which each month starts (months count from 0).\<close>

definition monthStarts :: "bool \<Rightarrow> int list" where
  "monthStarts leap =
     (if leap then [0, 31, 60, 91, 121, 152, 182, 213, 244, 274, 305, 335]
      else [0, 31, 59, 90, 120, 151, 181, 212, 243, 273, 304, 334])"

definition daysInMonth :: "bool \<Rightarrow> nat \<Rightarrow> nat" where
  "daysInMonth leap m =
     (if leap then [31, 29, 31, 30, 31, 30, 31, 31, 30, 31, 30, 31]
      else [31, 28, 31, 30, 31, 30, 31, 31, 30, 31, 30, 31]) ! m"

text \<open>\<open>MakeDay\<close> for a month \<open>1 \<le> m \<le> 12\<close>; a day past the end of the month runs on into the next.\<close>

definition makeDay :: "int \<Rightarrow> nat \<Rightarrow> nat \<Rightarrow> int" where
  "makeDay y m d = dayFromYear y + monthStarts (inLeapYear y) ! (m - 1) + int d - 1"

definition makeTime :: "nat \<Rightarrow> nat \<Rightarrow> nat \<Rightarrow> nat \<Rightarrow> int" where
  "makeTime h mi s ms = int h * 3600000 + int mi * 60000 + int s * 1000 + int ms"

definition makeDate :: "int \<Rightarrow> int \<Rightarrow> int" where
  "makeDate day time = day * msPerDay + time"

definition timeClip :: "int \<Rightarrow> timevalue" where
  "timeClip t = (if \<bar>t\<bar> \<le> 8640000000000000 then Some t else None)"

text \<open>
  \<open>YearFromTime\<close> is the largest year that starts on or before the day. It is computed by
  walking from an estimate up to the last year that has started and down to the first that
  has; \<open>dayFromYear\<close> grows by at least 365 a year, so both walks end.
\<close>

function yearUp :: "int \<Rightarrow> int \<Rightarrow> int" where
  "yearUp y d = (if dayFromYear (y + 1) \<le> d then yearUp (y + 1) d else y)"
  by pat_completeness auto
termination
proof (relation "measure (\<lambda>(y, d). nat (d - dayFromYear (y + 1) + 1))")
  show "wf (measure (\<lambda>(y, d). nat (d - dayFromYear (y + 1) + 1)))" by simp
next
  fix y d :: int
  assume le: "dayFromYear (y + 1) \<le> d"
  have a: "(y + 1 - 1969) div 4 \<le> (y + 1 + 1 - 1969) div 4"
    by (rule zdiv_mono1) simp_all
  have b: "(y + 1 + 1 - 1901) div 100 \<le> (y + 1 - 1901 + 100) div 100"
    by (rule zdiv_mono1) simp_all
  have b': "(y + 1 - 1901 + 100) div 100 = (y + 1 - 1901) div 100 + 1"
    by simp
  have c: "(y + 1 - 1601) div 400 \<le> (y + 1 + 1 - 1601) div 400"
    by (rule zdiv_mono1) simp_all
  have lin: "a1 \<le> a2 \<Longrightarrow> b2 \<le> b1 + 1 \<Longrightarrow> c1 \<le> c2 \<Longrightarrow>
      365 * (y + 1 - 1970) + a1 - b1 + c1 < 365 * (y + 1 + 1 - 1970) + a2 - b2 + c2"
    for a1 a2 b1 b2 c1 c2 :: int
    by arith
  have b'': "(y + 1 + 1 - 1901) div 100 \<le> (y + 1 - 1901) div 100 + 1"
    using b unfolding b' .
  have "dayFromYear (y + 1) < dayFromYear (y + 1 + 1)"
    unfolding dayFromYear_def by (rule lin [OF a b'' c])
  with le have "nat (d - dayFromYear (y + 1 + 1) + 1) < nat (d - dayFromYear (y + 1) + 1)"
    by linarith
  then show "((y + 1, d), (y, d)) \<in> measure (\<lambda>(y, d). nat (d - dayFromYear (y + 1) + 1))"
    unfolding in_measure by simp
qed

function yearDown :: "int \<Rightarrow> int \<Rightarrow> int" where
  "yearDown y d = (if d < dayFromYear y then yearDown (y - 1) d else y)"
  by pat_completeness auto
termination
proof (relation "measure (\<lambda>(y, d). nat (dayFromYear y - d))")
  show "wf (measure (\<lambda>(y, d). nat (dayFromYear y - d)))" by simp
next
  fix y d :: int
  assume lt: "d < dayFromYear y"
  have a: "(y - 1 - 1969) div 4 \<le> (y - 1969) div 4"
    by (rule zdiv_mono1) simp_all
  have b: "(y - 1901) div 100 \<le> (y - 1 - 1901 + 100) div 100"
    by (rule zdiv_mono1) simp_all
  have b': "(y - 1 - 1901 + 100) div 100 = (y - 1 - 1901) div 100 + 1"
    by simp
  have c: "(y - 1 - 1601) div 400 \<le> (y - 1601) div 400"
    by (rule zdiv_mono1) simp_all
  have lin: "a1 \<le> a2 \<Longrightarrow> b2 \<le> b1 + 1 \<Longrightarrow> c1 \<le> c2 \<Longrightarrow>
      365 * (y - 1 - 1970) + a1 - b1 + c1 < 365 * (y - 1970) + a2 - b2 + c2"
    for a1 a2 b1 b2 c1 c2 :: int
    by arith
  have b'': "(y - 1901) div 100 \<le> (y - 1 - 1901) div 100 + 1"
    using b unfolding b' .
  have "dayFromYear (y - 1) < dayFromYear y"
    unfolding dayFromYear_def by (rule lin [OF a b'' c])
  with lt have "nat (dayFromYear (y - 1) - d) < nat (dayFromYear y - d)"
    by linarith
  then show "((y - 1, d), (y, d)) \<in> measure (\<lambda>(y, d). nat (dayFromYear y - d))"
    unfolding in_measure by simp
qed

declare yearUp.simps [simp del]
declare yearDown.simps [simp del]

definition yearFromDay :: "int \<Rightarrow> int" where
  "yearFromDay d = yearDown (yearUp (1970 + d div 366) d) d"

text \<open>\<open>MonthFromTime\<close> (from 0) and \<open>DateFromTime\<close>, from the day within the year.\<close>

definition monthFromDoy :: "bool \<Rightarrow> int \<Rightarrow> nat" where
  "monthFromDoy leap doy =
     (let l = (if leap then 1 else 0) in
      if doy < 31 then 0 else if doy < 59 + l then 1 else if doy < 90 + l then 2
      else if doy < 120 + l then 3 else if doy < 151 + l then 4 else if doy < 181 + l then 5
      else if doy < 212 + l then 6 else if doy < 243 + l then 7 else if doy < 273 + l then 8
      else if doy < 304 + l then 9 else if doy < 334 + l then 10 else 11)"

definition dateFromDoy :: "bool \<Rightarrow> int \<Rightarrow> nat" where
  "dateFromDoy leap doy = nat (doy - monthStarts leap ! monthFromDoy leap doy + 1)"

text \<open>
  \<^verbatim>\<open>Date.prototype.toISOString\<close>: four digits for the years 0 to 9999, a sign and six digits
  otherwise; \<^verbatim>\<open>RangeError\<close> when the time value is \<open>NaN\<close>.
\<close>

definition yearString :: "int \<Rightarrow> string" where
  "yearString y =
     (if 0 \<le> y \<and> y \<le> 9999 then pad 4 (nat y)
      else (if y < 0 then ''-'' else ''+'') @ pad 6 (nat \<bar>y\<bar>))"

definition isoString :: "int \<Rightarrow> string" where
  "isoString t =
     (let day = t div msPerDay;
          tod = nat (t mod msPerDay);
          y = yearFromDay day;
          leap = inLeapYear y;
          doy = day - dayFromYear y
      in yearString y @ ''-'' @ pad 2 (monthFromDoy leap doy + 1) @ ''-''
           @ pad 2 (dateFromDoy leap doy) @ ''T''
           @ pad 2 (tod div 3600000) @ '':'' @ pad 2 (tod div 60000 mod 60) @ '':''
           @ pad 2 (tod div 1000 mod 60) @ ''.'' @ pad 3 (tod mod 1000) @ ''Z'')"

definition toISOString :: "timevalue \<Rightarrow> js_error + string" where
  "toISOString tv = (case tv of None \<Rightarrow> Inl RangeError | Some t \<Rightarrow> Inr (isoString t))"

text \<open>
  \<^verbatim>\<open>Date.parse\<close>. The strings the worker builds or reads back are in the ECMAScript
  date-time format: a year of four digits, or a sign and six digits, then
  \<^verbatim>\<open>-MM-DDTHH:mm:ss\<close>, optional milliseconds \<^verbatim>\<open>.sss\<close> and an optional \<^verbatim>\<open>Z\<close>. Without the
  \<^verbatim>\<open>Z\<close> the fields are local time.
\<close>

datatype fields = Fields (f_year: int) (f_month: nat) (f_day: nat) (f_hour: nat) (f_min: nat)
  (f_sec: nat) (f_ms: nat) (f_utc: bool)

definition parseYear :: "string \<Rightarrow> (int \<times> string) option" where
  "parseYear s =
     (case s of
        [] \<Rightarrow> None
      | c # r \<Rightarrow>
          if c = CHR ''+'' \<or> c = CHR ''-'' then
            (if 6 \<le> length r \<and> allDigits (take 6 r)
                \<and> \<not> (c = CHR ''-'' \<and> natOfDigits (take 6 r) = 0)
             then Some (if c = CHR ''-'' then - int (natOfDigits (take 6 r))
                        else int (natOfDigits (take 6 r)), drop 6 r)
             else None)
          else if 4 \<le> length s \<and> allDigits (take 4 s)
            then Some (int (natOfDigits (take 4 s)), drop 4 s)
          else None)"

definition twoDigits :: "string \<Rightarrow> bool" where
  "twoDigits s \<longleftrightarrow> length s = 2 \<and> allDigits s"

definition parseTail :: "string \<Rightarrow> (nat \<times> bool) option" where
  "parseTail t =
     (if t = [] then Some (0, False)
      else if t = ''Z'' then Some (0, True)
      else if 4 \<le> length t \<and> hd t = CHR ''.'' \<and> allDigits (slice 1 4 t) then
        (if drop 4 t = [] then Some (natOfDigits (slice 1 4 t), False)
         else if drop 4 t = ''Z'' then Some (natOfDigits (slice 1 4 t), True)
         else None)
      else None)"

definition parseDateTimeString :: "string \<Rightarrow> fields option" where
  "parseDateTimeString s =
     (case parseYear s of
        None \<Rightarrow> None
      | Some (y, r) \<Rightarrow>
          if 15 \<le> length r \<and> r ! 0 = CHR ''-'' \<and> twoDigits (slice 1 3 r)
             \<and> r ! 3 = CHR ''-'' \<and> twoDigits (slice 4 6 r)
             \<and> r ! 6 = CHR ''T'' \<and> twoDigits (slice 7 9 r)
             \<and> r ! 9 = CHR '':'' \<and> twoDigits (slice 10 12 r)
             \<and> r ! 12 = CHR '':'' \<and> twoDigits (slice 13 15 r)
          then (case parseTail (drop 15 r) of
                  None \<Rightarrow> None
                | Some (ms, z) \<Rightarrow>
                    Some (Fields y (natOfDigits (slice 1 3 r)) (natOfDigits (slice 4 6 r))
                            (natOfDigits (slice 7 9 r)) (natOfDigits (slice 10 12 r))
                            (natOfDigits (slice 13 15 r)) ms z))
          else None)"

text \<open>
  A field out of its range makes the string unparseable: months 1 to 12, days 1 to 31, hours
  to 23 (or 24:00:00.000), minutes and seconds to 59.
\<close>

definition legalFields :: "fields \<Rightarrow> bool" where
  "legalFields f \<longleftrightarrow>
     1 \<le> f_month f \<and> f_month f \<le> 12 \<and> 1 \<le> f_day f \<and> f_day f \<le> 31
     \<and> f_min f \<le> 59 \<and> f_sec f \<le> 59
     \<and> (f_hour f \<le> 23 \<or> (f_hour f = 24 \<and> f_min f = 0 \<and> f_sec f = 0 \<and> f_ms f = 0))"

definition fieldsTime :: "fields \<Rightarrow> int" where
  "fieldsTime f =
     makeDate (makeDay (f_year f) (f_month f) (f_day f))
       (makeTime (f_hour f) (f_min f) (f_sec f) (f_ms f))"

text \<open>ECMAScript's \<open>UTC(t)\<close>: the UTC instant of the local time value \<open>t\<close>.\<close>

definition localToUTC :: "runtime \<Rightarrow> int \<Rightarrow> int" where
  "localToUTC rt t = t - 60000 * offsetAtLocal rt t"

definition Date_parse :: "runtime \<Rightarrow> string \<Rightarrow> timevalue" where
  "Date_parse rt s =
     (case parseDateTimeString s of
        None \<Rightarrow> implParse rt s
      | Some f \<Rightarrow>
          if legalFields f
          then timeClip (if f_utc f then fieldsTime f else localToUTC rt (fieldsTime f))
          else None)"

text \<open>
  A \<^verbatim>\<open>Date\<close> object is its time value. \<^verbatim>\<open>new Date()\<close> reads the clock, \<^verbatim>\<open>new Date(string)\<close>
  parses, \<^verbatim>\<open>new Date(number)\<close> clips. \<^verbatim>\<open>getTimezoneOffset\<close> is UTC minus local time, in
  minutes. Arithmetic on a \<open>NaN\<close> is \<open>NaN\<close>.
\<close>

definition newDateNow :: "runtime \<Rightarrow> timevalue" where
  "newDateNow rt = Some (now rt)"

definition newDateStr :: "runtime \<Rightarrow> string \<Rightarrow> timevalue" where
  "newDateStr rt s = Date_parse rt s"

definition newDateNum :: "int option \<Rightarrow> timevalue" where
  "newDateNum v = (case v of None \<Rightarrow> None | Some t \<Rightarrow> timeClip t)"

definition getTime :: "timevalue \<Rightarrow> int option" where
  "getTime tv = tv"

definition getTimezoneOffset :: "runtime \<Rightarrow> timevalue \<Rightarrow> int option" where
  "getTimezoneOffset rt tv = (case tv of None \<Rightarrow> None | Some t \<Rightarrow> Some (- offsetAtUTC rt t))"

definition numSub :: "int option \<Rightarrow> int option \<Rightarrow> int option" where
  "numSub a b = (case (a, b) of (Some x, Some y) \<Rightarrow> Some (x - y) | _ \<Rightarrow> None)"

definition numAdd :: "int option \<Rightarrow> int option \<Rightarrow> int option" where
  "numAdd a b = (case (a, b) of (Some x, Some y) \<Rightarrow> Some (x + y) | _ \<Rightarrow> None)"

definition numMul :: "int option \<Rightarrow> int option \<Rightarrow> int option" where
  "numMul a b = (case (a, b) of (Some x, Some y) \<Rightarrow> Some (x * y) | _ \<Rightarrow> None)"

section \<open>Date normalisation\<close>

text \<open>The three tests of \<^verbatim>\<open>normalizeDates\<close>:
  \<^verbatim>\<open>/^\d{8}$/\<close>, \<^verbatim>\<open>/^\d{8}T\d{6}Z$/\<close> and \<^verbatim>\<open>/^\d{8}T\d{6}$/\<close>.\<close>

definition dateOnly :: "string \<Rightarrow> bool" where
  "dateOnly s \<longleftrightarrow> length s = 8 \<and> allDigits s"

definition dateTimeZ :: "string \<Rightarrow> bool" where
  "dateTimeZ s \<longleftrightarrow>
     length s = 16 \<and> allDigits (take 8 s) \<and> s ! 8 = CHR ''T'' \<and> allDigits (slice 9 15 s)
     \<and> s ! 15 = CHR ''Z''"

definition dateTimeLocal :: "string \<Rightarrow> bool" where
  "dateTimeLocal s \<longleftrightarrow>
     length s = 15 \<and> allDigits (take 8 s) \<and> s ! 8 = CHR ''T'' \<and> allDigits (slice 9 15 s)"

definition isoFromICSUTC :: "runtime \<Rightarrow> string \<Rightarrow> js_error + string" where
  "isoFromICSUTC rt icsDT =
     (let y = slice 0 4 icsDT; m = slice 4 6 icsDT; d = slice 6 8 icsDT;
          hh = slice 9 11 icsDT; mm = slice 11 13 icsDT; ss = slice 13 15 icsDT
      in toISOString
           (newDateStr rt (y @ ''-'' @ m @ ''-'' @ d @ ''T'' @ hh @ '':'' @ mm @ '':'' @ ss @ ''Z'')))"

definition toUTCStringFromLocalDateTime :: "runtime \<Rightarrow> string \<Rightarrow> js_error + string" where
  "toUTCStringFromLocalDateTime rt icsLocal =
     (let y = slice 0 4 icsLocal; m = slice 4 6 icsLocal; d = slice 6 8 icsLocal;
          hh = slice 9 11 icsLocal; mm = slice 11 13 icsLocal; ss = slice 13 15 icsLocal;
          dt = newDateStr rt (y @ ''-'' @ m @ ''-'' @ d @ ''T'' @ hh @ '':'' @ mm @ '':'' @ ss)
      in toISOString
           (newDateNum (numSub (getTime dt) (numMul (getTimezoneOffset rt dt) (Some 60000)))))"

definition toUTCStringFromLocalParts :: "runtime \<Rightarrow> string \<Rightarrow> string \<Rightarrow> js_error + string" where
  "toUTCStringFromLocalParts rt yyyymmdd hhmmss =
     (let y = slice 0 4 yyyymmdd; m = slice 4 6 yyyymmdd; d = slice 6 8 yyyymmdd;
          hh = slice 0 2 hhmmss; mm = slice 2 4 hhmmss; ss = slice 4 6 hhmmss;
          dt = newDateStr rt (y @ ''-'' @ m @ ''-'' @ d @ ''T'' @ hh @ '':'' @ mm @ '':'' @ ss)
      in toISOString
           (newDateNum (numSub (getTime dt) (numMul (getTimezoneOffset rt dt) (Some 60000)))))"

text \<open>
  A property value is a string or \<^verbatim>\<open>undefined\<close> (\<open>None\<close>); \<open>truthy\<close> is what \<^verbatim>\<open>dtstart &&\<close>
  and \<^verbatim>\<open>dtend ?\<close> test. The result is the triple \<^verbatim>\<open>{ start, end, isAllDay }\<close>.
\<close>

definition truthy :: "string option \<Rightarrow> bool" where
  "truthy v \<longleftrightarrow> (case v of None \<Rightarrow> False | Some s \<Rightarrow> s \<noteq> [])"

definition strOf :: "string option \<Rightarrow> string" where
  "strOf v = (case v of None \<Rightarrow> [] | Some s \<Rightarrow> s)"

definition normalizeDates ::
  "runtime \<Rightarrow> string option \<Rightarrow> string option \<Rightarrow> js_error + (string \<times> string \<times> bool)" where
  "normalizeDates rt dtstart dtend =
     (if truthy dtstart \<and> dateOnly (strOf dtstart) then
        bindE (toUTCStringFromLocalParts rt (strOf dtstart) ''000000'') (\<lambda>start.
          if truthy dtend \<and> dateOnly (strOf dtend) then
            bindE (toUTCStringFromLocalParts rt (strOf dtend) ''000000'') (\<lambda>end'.
              Inr (start, end', True))
          else
            bindE (toISOString (newDateNum
                     (numAdd (getTime (newDateStr rt start)) (Some (24 * 3600 * 1000))))) (\<lambda>end'.
              Inr (start, end', True)))
      else if truthy dtstart \<and> dateTimeZ (strOf dtstart) then
        bindE (isoFromICSUTC rt (strOf dtstart)) (\<lambda>start.
          bindE (if truthy dtend then
                   (if dateTimeZ (strOf dtend) then isoFromICSUTC rt (strOf dtend)
                    else if dateTimeLocal (strOf dtend)
                      then toUTCStringFromLocalDateTime rt (strOf dtend)
                    else isoFromICSUTC rt (strOf dtstart))
                 else Inr start) (\<lambda>end'.
            Inr (start, end', False)))
      else if truthy dtstart \<and> dateTimeLocal (strOf dtstart) then
        bindE (toUTCStringFromLocalDateTime rt (strOf dtstart)) (\<lambda>start.
          bindE (if truthy dtend then
                   (if dateTimeLocal (strOf dtend)
                      then toUTCStringFromLocalDateTime rt (strOf dtend)
                    else if dateTimeZ (strOf dtend) then isoFromICSUTC rt (strOf dtend)
                    else Inr start)
                 else Inr start) (\<lambda>end'.
            Inr (start, end', False)))
      else
        bindE (toISOString (newDateNow rt)) (\<lambda>now'. Inr (now', now', False)))"

section \<open>ICS parsing\<close>

record event =
  start :: string
  end' :: string
  isAllDay :: bool
  summary :: string
  location :: string
  url :: string
  uid :: string
  calendar :: string

text \<open>\<^verbatim>\<open>ics.replace(/\r?\n[ \t]/g, "")\<close>: a line break followed by a space or a tab is dropped.\<close>

fun unfoldLines :: "string \<Rightarrow> string" where
  "unfoldLines [] = []"
| "unfoldLines (c # cs) =
     (if c = CR \<and> 2 \<le> length cs \<and> cs ! 0 = LF \<and> (cs ! 1 = SP \<or> cs ! 1 = TAB)
        then unfoldLines (drop 2 cs)
      else if c = LF \<and> 1 \<le> length cs \<and> (cs ! 0 = SP \<or> cs ! 0 = TAB)
        then unfoldLines (drop 1 cs)
      else c # unfoldLines cs)"

text \<open>\<^verbatim>\<open>unfolded.split(/\r?\n/)\<close>; \<open>acc\<close> is the line read so far.\<close>

fun splitLines :: "string \<Rightarrow> string \<Rightarrow> string list" where
  "splitLines acc [] = [acc]"
| "splitLines acc (c # cs) =
     (if c = CR \<and> 1 \<le> length cs \<and> cs ! 0 = LF then acc # splitLines [] (drop 1 cs)
      else if c = LF then acc # splitLines [] cs
      else splitLines (acc @ [c]) cs)"

text \<open>
  The loop of \<^verbatim>\<open>parseICS\<close> over the lines: \<open>cur\<close> is the property map of the open
  \<^verbatim>\<open>VEVENT\<close> block, or \<^verbatim>\<open>null\<close>. An exception of \<^verbatim>\<open>normalizeDates\<close> ends the loop.
\<close>

definition orEmpty :: "string option \<Rightarrow> string" where
  "orEmpty v = (case v of None \<Rightarrow> [] | Some s \<Rightarrow> s)"

fun icsLoop ::
  "runtime \<Rightarrow> string list \<Rightarrow> (string \<rightharpoonup> string) option \<Rightarrow> event list \<Rightarrow> js_error + event list" where
  "icsLoop rt [] cur events = Inr events"
| "icsLoop rt (line # rest) cur events =
     (if line = ''BEGIN:VEVENT'' then icsLoop rt rest (Some Map.empty) events
      else if line = ''END:VEVENT'' then
        (case cur of
           None \<Rightarrow> icsLoop rt rest None events
         | Some c \<Rightarrow>
             (case normalizeDates rt (c ''DTSTART'') (c ''DTEND'') of
                Inl e \<Rightarrow> Inl e
              | Inr (s, e, a) \<Rightarrow>
                  icsLoop rt rest None
                    (events @ [\<lparr>start = s, end' = e, isAllDay = a,
                       summary = orEmpty (c ''SUMMARY''), location = orEmpty (c ''LOCATION''),
                       url = orEmpty (c ''URL''), uid = orEmpty (c ''UID''),
                       calendar = ''Laget.se''\<rparr>])))
      else
        (case cur of
           None \<Rightarrow> icsLoop rt rest None events
         | Some c \<Rightarrow>
             (case indexOf (CHR '':'') line of
                None \<Rightarrow> icsLoop rt rest cur events
              | Some idx \<Rightarrow>
                  (let left = slice 0 idx line;
                       value = drop (idx + 1) line;
                       key = toUpperCase (takeWhile (\<lambda>ch. ch \<noteq> CHR '';'') left)
                   in icsLoop rt rest (Some (c(key \<mapsto> value))) events))))"

definition parseICS :: "runtime \<Rightarrow> string \<Rightarrow> js_error + event list" where
  "parseICS rt ics = icsLoop rt (splitLines [] (unfoldLines ics)) None []"

section \<open>RSS parsing\<close>

text \<open>
  The regular expressions of the RSS parser are written out as scanners. The flag \<^verbatim>\<open>i\<close>
  compares letters without case; \<^verbatim>\<open>\b\<close> after a tag name holds when the next character
  is not a word character.
\<close>

definition isWordChar :: "char \<Rightarrow> bool" where
  "isWordChar c \<longleftrightarrow>
     c \<in> set ''abcdefghijklmnopqrstuvwxyzABCDEFGHIJKLMNOPQRSTUVWXYZ0123456789_''"

definition startsWithCI :: "string \<Rightarrow> string \<Rightarrow> bool" where
  "startsWithCI p s \<longleftrightarrow> toUpperCase (take (length p) s) = toUpperCase p"

text \<open>The first position at which a pattern occurs, with and without case.\<close>

fun findSub :: "string \<Rightarrow> string \<Rightarrow> nat option" where
  "findSub p [] = (if p = [] then Some 0 else None)"
| "findSub p (c # cs) =
     (if startsWith p (c # cs) then Some 0 else map_option Suc (findSub p cs))"

fun findCI :: "string \<Rightarrow> string \<Rightarrow> nat option" where
  "findCI p [] = (if p = [] then Some 0 else None)"
| "findCI p (c # cs) =
     (if startsWithCI p (c # cs) then Some 0 else map_option Suc (findCI p cs))"

definition wordBoundary :: "string \<Rightarrow> bool" where
  "wordBoundary rest \<longleftrightarrow> (case rest of [] \<Rightarrow> True | c # _ \<Rightarrow> \<not> isWordChar c)"

text \<open>
  \<^verbatim>\<open>/<item\b[\s\S]*?<\/item>/gi\<close> at the head of \<open>s\<close>: the block runs to the first closing
  tag. \<open>itemBlocks\<close> is the \<^verbatim>\<open>exec\<close> loop; the search resumes behind each match.
\<close>

definition matchItemAt :: "string \<Rightarrow> string option" where
  "matchItemAt s =
     (if startsWithCI ''<item'' s \<and> wordBoundary (drop 5 s) then
        (case findCI ''</item>'' (drop 5 s) of
           None \<Rightarrow> None
         | Some k \<Rightarrow> Some (take (5 + k + 7) s))
      else None)"

fun itemBlocks :: "string \<Rightarrow> string list" where
  "itemBlocks [] = []"
| "itemBlocks (c # cs) =
     (case matchItemAt (c # cs) of
        None \<Rightarrow> itemBlocks cs
      | Some b \<Rightarrow> b # itemBlocks (drop (length b - 1) cs))"

text \<open>
  \<^verbatim>\<open><tag\b[^>]*>([\s\S]*?)<\/tag>\<close> with flag \<^verbatim>\<open>i\<close>, at the head of \<open>s\<close>: the opening tag
  ends at the first \<^verbatim>\<open>>\<close>, the content at the first closing tag. The result is the
  content and the length of the match.
\<close>

definition matchTagAt :: "string \<Rightarrow> string \<Rightarrow> (string \<times> nat) option" where
  "matchTagAt tag s =
     (let n = length tag + 1 in
      if startsWithCI (''<'' @ tag) s \<and> wordBoundary (drop n s) then
        (case indexOf (CHR ''>'') (drop n s) of
           None \<Rightarrow> None
         | Some i \<Rightarrow>
             (case findCI (''</'' @ tag @ ''>'') (drop (n + i + 1) s) of
                None \<Rightarrow> None
              | Some k \<Rightarrow> Some (take k (drop (n + i + 1) s), n + i + 1 + k + length tag + 3)))
      else None)"

text \<open>\<^verbatim>\<open>/<!\[CDATA\[(.*?)\]\]>/gs\<close> replaced by its group.\<close>

fun stripCDATA :: "string \<Rightarrow> string" where
  "stripCDATA [] = []"
| "stripCDATA (c # cs) =
     (if startsWith ''<![CDATA['' (c # cs) then
        (case findSub '']]>'' (drop 8 cs) of
           None \<Rightarrow> c # stripCDATA cs
         | Some k \<Rightarrow> take k (drop 8 cs) @ stripCDATA (drop (8 + k + 3) cs))
      else c # stripCDATA cs)"

fun firstTag :: "string \<Rightarrow> string \<Rightarrow> string option" where
  "firstTag tag [] = None"
| "firstTag tag (c # cs) =
     (case matchTagAt tag (c # cs) of
        None \<Rightarrow> firstTag tag cs
      | Some (content, n) \<Rightarrow> Some content)"

definition pickTag :: "string \<Rightarrow> string \<Rightarrow> string option" where
  "pickTag xml tag = map_option (\<lambda>m1. trim (stripCDATA m1)) (firstTag tag xml)"

fun allTags :: "string \<Rightarrow> string \<Rightarrow> string list" where
  "allTags tag [] = []"
| "allTags tag (c # cs) =
     (case matchTagAt tag (c # cs) of
        None \<Rightarrow> allTags tag cs
      | Some (content, n) \<Rightarrow> content # allTags tag (drop (n - 1) cs))"

definition pickAll :: "string \<Rightarrow> string \<Rightarrow> string list" where
  "pickAll xml tag = map (\<lambda>m1. trim (stripCDATA m1)) (allTags tag xml)"

text \<open>
  \<^verbatim>\<open>pickAttr\<close>: \<^verbatim>\<open><tag\b([^>]*)\/?>\<close> takes everything up to the first \<^verbatim>\<open>>\<close> as the
  attributes; in them \<^verbatim>\<open>attr="([^"]+)"\<close> is tried first, then the same with single quotes.
\<close>

definition DQ :: char where "DQ = CHR 0x22"
definition SQ :: char where "SQ = CHR 0x27"

fun firstAttrs :: "string \<Rightarrow> string \<Rightarrow> string option" where
  "firstAttrs tag [] = None"
| "firstAttrs tag (c # cs) =
     (let n = length tag + 1 in
      if startsWithCI (''<'' @ tag) (c # cs) \<and> wordBoundary (drop n (c # cs))
         \<and> indexOf (CHR ''>'') (drop n (c # cs)) \<noteq> None
      then map_option (\<lambda>i. take i (drop n (c # cs))) (indexOf (CHR ''>'') (drop n (c # cs)))
      else firstAttrs tag cs)"

definition matchAttrAt :: "char \<Rightarrow> string \<Rightarrow> string \<Rightarrow> string option" where
  "matchAttrAt q attr s =
     (if startsWithCI (attr @ ''='' @ [q]) s then
        (case indexOf q (drop (length attr + 2) s) of
           None \<Rightarrow> None
         | Some i \<Rightarrow> if 1 \<le> i then Some (take i (drop (length attr + 2) s)) else None)
      else None)"

fun findAttr :: "char \<Rightarrow> string \<Rightarrow> string \<Rightarrow> string option" where
  "findAttr q attr [] = None"
| "findAttr q attr (c # cs) =
     (case matchAttrAt q attr (c # cs) of
        None \<Rightarrow> findAttr q attr cs
      | Some v \<Rightarrow> Some v)"

definition pickAttr :: "string \<Rightarrow> string \<Rightarrow> string \<Rightarrow> string option" where
  "pickAttr xml tag attr =
     (case firstAttrs tag xml of
        None \<Rightarrow> None
      | Some attrs \<Rightarrow>
          (case findAttr DQ attr attrs of
             Some v \<Rightarrow> Some v
           | None \<Rightarrow> findAttr SQ attr attrs))"

text \<open>
  \<^verbatim>\<open>stripTags\<close>, one \<^verbatim>\<open>replace\<close> after the other: \<^verbatim>\<open>/<\/?[^>]+>/g\<close> removes from a
  \<^verbatim>\<open><\<close> that is not directly followed by \<^verbatim>\<open>>\<close> to the next \<^verbatim>\<open>>\<close>, if there is one;
  \<^verbatim>\<open>/\r?\n|\r/g\<close> turns line breaks into spaces; \<^verbatim>\<open>/\s+/g\<close> turns each run of white space
  into one space (\<open>inRun\<close> says that the run has begun).
\<close>

fun removeTags :: "string \<Rightarrow> string" where
  "removeTags [] = []"
| "removeTags (c # cs) =
     (if c = CHR ''<'' \<and> cs \<noteq> [] \<and> hd cs \<noteq> CHR ''>'' then
        (case indexOf (CHR ''>'') (tl cs) of
           None \<Rightarrow> c # removeTags cs
         | Some i \<Rightarrow> removeTags (drop (i + 1) (tl cs)))
      else c # removeTags cs)"

fun breaksToSpaces :: "string \<Rightarrow> string" where
  "breaksToSpaces [] = []"
| "breaksToSpaces (c # cs) =
     (if c = CR \<and> cs \<noteq> [] \<and> hd cs = LF then SP # breaksToSpaces (tl cs)
      else if c = LF \<or> c = CR then SP # breaksToSpaces cs
      else c # breaksToSpaces cs)"

fun collapseFrom :: "bool \<Rightarrow> string \<Rightarrow> string" where
  "collapseFrom inRun [] = []"
| "collapseFrom inRun (c # cs) =
     (if isSpace c then (if inRun then collapseFrom True cs else SP # collapseFrom True cs)
      else c # collapseFrom False cs)"

definition collapseSpaces :: "string \<Rightarrow> string" where
  "collapseSpaces s = collapseFrom False s"

definition stripTags :: "string \<Rightarrow> string" where
  "stripTags s = trim (collapseSpaces (breaksToSpaces (removeTags s)))"

text \<open>\<^verbatim>\<open>decodeHTML\<close>: the six entities, replaced from left to right; the replacement is not
  read again.\<close>

definition entities :: "(string \<times> string) list" where
  "entities =
     [(''&amp;'', ''&''), (''&lt;'', ''<''), (''&gt;'', ''>''), (''&quot;'', [DQ]),
      (''&#39;'', [SQ]), (''&apos;'', [SQ])]"

fun decodeHTML :: "string \<Rightarrow> string" where
  "decodeHTML [] = []"
| "decodeHTML (c # cs) =
     (case find (\<lambda>(e, r). startsWith e (c # cs)) entities of
        None \<Rightarrow> c # decodeHTML cs
      | Some (e, r) \<Rightarrow> r @ decodeHTML (drop (length e - 1) cs))"

record item =
  title :: string
  link :: string
  guid :: string
  pubDate :: string
  description :: string
  enclosure :: "string option"
  categories :: "string list"

definition itemOf :: "string \<Rightarrow> item" where
  "itemOf block =
     \<lparr>title = decodeHTML (stripTags (orEmpty (pickTag block ''title''))),
      link = trim (orEmpty (pickTag block ''link'')),
      guid = trim (orEmpty (pickTag block ''guid'')),
      pubDate = trim (orEmpty (pickTag block ''pubDate'')),
      description = decodeHTML (stripTags (orEmpty (pickTag block ''description''))),
      enclosure = pickAttr block ''enclosure'' ''url'',
      categories = map (\<lambda>x. decodeHTML (stripTags x)) (pickAll block ''category'')\<rparr>"

text \<open>
  \<^verbatim>\<open>Array.prototype.sort\<close> with a comparator, as the stable insertion sort: every sort that
  conforms to ECMAScript returns this list when the comparator is consistent. A comparator
  result of \<open>NaN\<close> counts as 0. A comparator that returns \<open>NaN\<close> for some pairs only is not
  consistent, and then the order is left to the implementation: on lists of three or more
  items another sort, that of V8 among them, can return another order than this one. Two
  items whose comparison is \<open>NaN\<close> in both directions stay in their order in every stable
  sort.
\<close>

fun insertBy :: "('a \<Rightarrow> 'a \<Rightarrow> int) \<Rightarrow> 'a \<Rightarrow> 'a list \<Rightarrow> 'a list" where
  "insertBy cmp x [] = [x]"
| "insertBy cmp x (y # ys) = (if cmp x y \<le> 0 then x # y # ys else y # insertBy cmp x ys)"

definition sortBy :: "('a \<Rightarrow> 'a \<Rightarrow> int) \<Rightarrow> 'a list \<Rightarrow> 'a list" where
  "sortBy cmp xs = foldr (insertBy cmp) xs []"

definition nanToZero :: "int option \<Rightarrow> int" where
  "nanToZero v = (case v of None \<Rightarrow> 0 | Some n \<Rightarrow> n)"

text \<open>\<^verbatim>\<open>Date.parse(x.pubDate || 0)\<close>: an empty \<^verbatim>\<open>pubDate\<close> gives \<^verbatim>\<open>Date.parse(0)\<close>, which parses
  the string \<^verbatim>\<open>"0"\<close>.\<close>

definition pubTime :: "runtime \<Rightarrow> item \<Rightarrow> timevalue" where
  "pubTime rt x = Date_parse rt (if pubDate x = [] then ''0'' else pubDate x)"

definition cmpPubDate :: "runtime \<Rightarrow> item \<Rightarrow> item \<Rightarrow> int" where
  "cmpPubDate rt a b = nanToZero (numSub (pubTime rt b) (pubTime rt a))"

definition parseRSS :: "runtime \<Rightarrow> string \<Rightarrow> item list" where
  "parseRSS rt xml = sortBy (cmpPubDate rt) (map itemOf (itemBlocks xml))"

section \<open>Requests, responses and the collaborators\<close>

text \<open>
  A request is its method, the path of its URL and the query parameters in order. A response
  carries the headers the worker sets. A JSON body is kept as the value that
  \<^verbatim>\<open>JSON.stringify\<close> is given.
\<close>

record request =
  httpMethod :: string
  pathname :: string
  query :: "(string \<times> string) list"

datatype json = JNull | JBool bool | JNum rat | JStr string | JArr "json list"
  | JObj "(string \<times> json) list"

datatype body = TextBody string | JsonBody json

record response =
  status :: nat
  headers :: "(string \<times> string) list"
  body :: body

record env =
  ICAL_URL :: "string option"
  NEWS_RSS_URL :: "string option"
  CORS_ORIGIN :: "string option"

text \<open>
  The collaborators: the edge cache \<^verbatim>\<open>caches.default\<close>, whose \<^verbatim>\<open>put\<close> can reject, and the
  upstream behind the global \<^verbatim>\<open>fetch\<close>, which rejects or resolves to a response with its
  \<^verbatim>\<open>ok\<close> flag and text. \<open>fetchLog\<close> records the URLs fetched.
\<close>

datatype fetched = Rejected | Resolved bool string

record world =
  edgeCache :: "request \<Rightarrow> response option"
  putRejects :: "request \<Rightarrow> bool"
  upstream :: "string \<Rightarrow> fetched"
  fetchLog :: "string list"

definition CACHE_TTL_SECONDS :: nat where "CACHE_TTL_SECONDS = 600"
definition DEFAULT_DAYS_AHEAD :: rat where "DEFAULT_DAYS_AHEAD = 365"
definition MAX_LIMIT :: rat where "MAX_LIMIT = 500"

definition cacheControl :: string where
  "cacheControl = ''public, max-age=600, stale-while-revalidate=86400''"

text \<open>\<^verbatim>\<open>headers.set\<close>: the value of an existing name is replaced, a new name is added.\<close>

fun setHeader :: "string \<Rightarrow> string \<Rightarrow> (string \<times> string) list \<Rightarrow> (string \<times> string) list" where
  "setHeader k v [] = [(k, v)]"
| "setHeader k v ((k', v') # hs) =
     (if k' = k then (k, v) # hs else (k', v') # setHeader k v hs)"

definition corsHeaders :: "env \<Rightarrow> (string \<times> string) list" where
  "corsHeaders e =
     [(''access-control-allow-origin'', if truthy (CORS_ORIGIN e) then strOf (CORS_ORIGIN e) else ''*''),
      (''access-control-allow-methods'', ''GET, HEAD, OPTIONS''),
      (''access-control-allow-headers'', ''Content-Type, Cache-Control'')]"

definition withCORS :: "response \<Rightarrow> (string \<times> string) list \<Rightarrow> response" where
  "withCORS res cors = res\<lparr>headers := foldl (\<lambda>hs (k, v). setHeader k v hs) (headers res) cors\<rparr>"

definition jsonResponse :: "json \<Rightarrow> (string \<times> string) list \<Rightarrow> nat \<Rightarrow> response" where
  "jsonResponse obj cors st =
     \<lparr>status = st,
      headers = setHeader ''content-type'' ''application/json; charset=utf-8'' cors,
      body = JsonBody obj\<rparr>"

definition badRequest :: "string \<Rightarrow> (string \<times> string) list \<Rightarrow> response" where
  "badRequest msg cors = jsonResponse (JObj [(''error'', JStr msg)]) cors 400"

text \<open>\<^verbatim>\<open>int\<close> gives the number, or \<^verbatim>\<open>null\<close> for a missing parameter and for a value that is not
  finite; \<^verbatim>\<open>??\<close> then takes the default.\<close>

definition int_js :: "runtime \<Rightarrow> string option \<Rightarrow> rat option" where
  "int_js rt v =
     (case v of
        None \<Rightarrow> None
      | Some s \<Rightarrow> (case toNumber rt s of Fin n \<Rightarrow> Some n | _ \<Rightarrow> None))"

definition orDefault :: "rat option \<Rightarrow> rat \<Rightarrow> rat" where
  "orDefault v d = (case v of None \<Rightarrow> d | Some n \<Rightarrow> n)"

definition clamp :: "rat \<Rightarrow> rat \<Rightarrow> rat \<Rightarrow> rat" where
  "clamp n mn mx = max mn (min mx n)"

definition searchParam :: "request \<Rightarrow> string \<Rightarrow> string option" where
  "searchParam req name = map_of (query req) name"

text \<open>Truncation toward zero, as \<^verbatim>\<open>new Date(number)\<close> and \<^verbatim>\<open>slice\<close> do to a fraction.\<close>

definition truncate :: "rat \<Rightarrow> int" where
  "truncate r = (if 0 \<le> r then \<lfloor>r\<rfloor> else \<lceil>r\<rceil>)"

definition newDateRat :: "rat option \<Rightarrow> timevalue" where
  "newDateRat v =
     (case v of
        None \<Rightarrow> None
      | Some r \<Rightarrow> if \<bar>r\<bar> \<le> 8640000000000000 then Some (truncate r) else None)"

text \<open>
  \<^verbatim>\<open>startOfDayUTC\<close> goes through \<^verbatim>\<open>Date.UTC\<close>, which reads a year from 0 to 99 as a year of
  the twentieth century.
\<close>

definition startOfDayUTC :: "timevalue \<Rightarrow> timevalue" where
  "startOfDayUTC d =
     (case d of
        None \<Rightarrow> None
      | Some t \<Rightarrow>
          (let day = t div msPerDay;
               y = yearFromDay day;
               leap = inLeapYear y;
               doy = day - dayFromYear y;
               yr = (if 0 \<le> y \<and> y \<le> 99 then 1900 + y else y)
           in timeClip (makeDate (makeDay yr (monthFromDoy leap doy + 1) (dateFromDoy leap doy)) 0)))"

definition fromEdgeCache :: "world \<Rightarrow> request \<Rightarrow> response option" where
  "fromEdgeCache w req = edgeCache w req"

definition saveToEdgeCache :: "world \<Rightarrow> request \<Rightarrow> response \<Rightarrow> js_error + world" where
  "saveToEdgeCache w req res =
     (if putRejects w req then Inl TypeError
      else Inr (w\<lparr>edgeCache := (edgeCache w)(req := Some res)\<rparr>))"

definition doFetch :: "world \<Rightarrow> string \<Rightarrow> fetched \<times> world" where
  "doFetch w u = (upstream w u, w\<lparr>fetchLog := fetchLog w @ [u]\<rparr>)"

text \<open>
  The tail that the four operations share: the response is built, then
  \<^verbatim>\<open>await saveToEdgeCache(request, res.clone())\<close>, then \<^verbatim>\<open>return res\<close>.
\<close>

definition saveAndReturn :: "world \<Rightarrow> request \<Rightarrow> response \<Rightarrow> (js_error + response) \<times> world" where
  "saveAndReturn w req res =
     (case saveToEdgeCache w req res of
        Inl e \<Rightarrow> (Inl e, w)
      | Inr w' \<Rightarrow> (Inr res, w'))"

section \<open>The events operations\<close>

definition eventJson :: "event \<Rightarrow> json" where
  "eventJson ev =
     JObj [(''start'', JStr (start ev)), (''end'', JStr (end' ev)), (''isAllDay'', JBool (isAllDay ev)),
           (''summary'', JStr (summary ev)), (''location'', JStr (location ev)),
           (''url'', JStr (url ev)), (''uid'', JStr (uid ev)), (''calendar'', JStr (calendar ev))]"

definition timeLe :: "timevalue \<Rightarrow> timevalue \<Rightarrow> bool" where
  "timeLe a b \<longleftrightarrow> (case (a, b) of (Some x, Some y) \<Rightarrow> x \<le> y | _ \<Rightarrow> False)"

definition daysParam :: "runtime \<Rightarrow> request \<Rightarrow> rat" where
  "daysParam rt req = clamp (orDefault (int_js rt (searchParam req ''days'')) DEFAULT_DAYS_AHEAD) 1 3650"

definition upcomingEvents :: "runtime \<Rightarrow> request \<Rightarrow> event list \<Rightarrow> event list" where
  "upcomingEvents rt req events =
     (let now' = newDateNow rt;
          days = daysParam rt req;
          until = newDateRat (map_option (\<lambda>t. of_int t + days * 24 * 3600 * 1000) (getTime now'))
      in sortBy (\<lambda>a b. nanToZero (numSub (newDateStr rt (start a)) (newDateStr rt (start b))))
           (filter (\<lambda>ev. timeLe (startOfDayUTC now') (newDateStr rt (start ev))
                          \<and> timeLe (newDateStr rt (start ev)) until) events))"

definition limitParam :: "runtime \<Rightarrow> request \<Rightarrow> nat \<Rightarrow> rat" where
  "limitParam rt req n = clamp (orDefault (int_js rt (searchParam req ''limit'')) (of_nat n)) 1 MAX_LIMIT"

definition eventsPayload :: "runtime \<Rightarrow> request \<Rightarrow> event list \<Rightarrow> json" where
  "eventsPayload rt req events =
     (let upcoming = upcomingEvents rt req events;
          limit = limitParam rt req (length upcoming)
      in JObj [(''updatedAt'', JStr (isoString (now rt))),
               (''count'', JNum (min limit (of_nat (length upcoming)))),
               (''events'', JArr (map eventJson (take (nat (truncate limit)) upcoming)))])"

definition eventsJSON ::
  "runtime \<Rightarrow> env \<Rightarrow> request \<Rightarrow> (string \<times> string) list \<Rightarrow> world \<Rightarrow> (js_error + response) \<times> world" where
  "eventsJSON rt e req cors w =
     (if \<not> truthy (ICAL_URL e) then (Inr (badRequest ''Missing ICAL_URL env'' cors), w)
      else case fromEdgeCache w req of
        Some cached \<Rightarrow> (Inr (withCORS cached cors), w)
      | None \<Rightarrow>
          (case doFetch w (strOf (ICAL_URL e)) of
             (Rejected, w1) \<Rightarrow> (Inl NetworkError, w1)
           | (Resolved ok icsText, w1) \<Rightarrow>
               if \<not> ok then
                 (Inr \<lparr>status = 502, headers = cors, body = TextBody ''Failed to fetch ICS''\<rparr>, w1)
               else
                 (case parseICS rt icsText of
                    Inl err \<Rightarrow> (Inl err, w1)
                  | Inr events \<Rightarrow>
                      (let res = jsonResponse (eventsPayload rt req events) cors 200;
                           res' = res\<lparr>headers := setHeader ''cache-control'' cacheControl (headers res)\<rparr>
                       in saveAndReturn w1 req res'))))"

definition rawICS ::
  "env \<Rightarrow> request \<Rightarrow> (string \<times> string) list \<Rightarrow> world \<Rightarrow> (js_error + response) \<times> world" where
  "rawICS e req cors w =
     (if \<not> truthy (ICAL_URL e) then (Inr (badRequest ''Missing ICAL_URL env'' cors), w)
      else case fromEdgeCache w req of
        Some cached \<Rightarrow> (Inr (withCORS cached cors), w)
      | None \<Rightarrow>
          (case doFetch w (strOf (ICAL_URL e)) of
             (Rejected, w1) \<Rightarrow> (Inl NetworkError, w1)
           | (Resolved ok icsText, w1) \<Rightarrow>
               if \<not> ok then
                 (Inr \<lparr>status = 502, headers = cors, body = TextBody ''Failed to fetch ICS''\<rparr>, w1)
               else
                 saveAndReturn w1 req
                   \<lparr>status = 200,
                    headers = setHeader ''cache-control'' cacheControl
                      (setHeader ''content-type'' ''text/calendar; charset=utf-8'' cors),
                    body = TextBody icsText\<rparr>))"

section \<open>The news operations\<close>

definition optJson :: "string option \<Rightarrow> json" where
  "optJson v = (case v of None \<Rightarrow> JNull | Some s \<Rightarrow> JStr s)"

definition itemJson :: "item \<Rightarrow> json" where
  "itemJson x =
     JObj [(''title'', JStr (title x)), (''link'', JStr (link x)), (''guid'', JStr (guid x)),
           (''pubDate'', JStr (pubDate x)), (''description'', JStr (description x)),
           (''enclosure'', optJson (enclosure x)),
           (''categories'', JArr (map JStr (categories x)))]"

definition newsPayload :: "runtime \<Rightarrow> request \<Rightarrow> item list \<Rightarrow> json" where
  "newsPayload rt req items =
     (let limit = limitParam rt req (length items)
      in JObj [(''updatedAt'', JStr (isoString (now rt))),
               (''count'', JNum (min limit (of_nat (length items)))),
               (''items'', JArr (map itemJson (take (nat (truncate limit)) items)))])"

definition newsJSON ::
  "runtime \<Rightarrow> env \<Rightarrow> request \<Rightarrow> (string \<times> string) list \<Rightarrow> world \<Rightarrow> (js_error + response) \<times> world" where
  "newsJSON rt e req cors w =
     (if \<not> truthy (NEWS_RSS_URL e) then (Inr (badRequest ''Missing NEWS_RSS_URL env'' cors), w)
      else case fromEdgeCache w req of
        Some cached \<Rightarrow> (Inr (withCORS cached cors), w)
      | None \<Rightarrow>
          (case doFetch w (strOf (NEWS_RSS_URL e)) of
             (Rejected, w1) \<Rightarrow> (Inl NetworkError, w1)
           | (Resolved ok xml, w1) \<Rightarrow>
               if \<not> ok then
                 (Inr \<lparr>status = 502, headers = cors, body = TextBody ''Failed to fetch RSS''\<rparr>, w1)
               else
                 (let res = jsonResponse (newsPayload rt req (parseRSS rt xml)) cors 200;
                      res' = res\<lparr>headers := setHeader ''cache-control'' cacheControl (headers res)\<rparr>
                  in saveAndReturn w1 req res')))"

definition rawRSS ::
  "env \<Rightarrow> request \<Rightarrow> (string \<times> string) list \<Rightarrow> world \<Rightarrow> (js_error + response) \<times> world" where
  "rawRSS e req cors w =
     (if \<not> truthy (NEWS_RSS_URL e) then (Inr (badRequest ''Missing NEWS_RSS_URL env'' cors), w)
      else case fromEdgeCache w req of
        Some cached \<Rightarrow> (Inr (withCORS cached cors), w)
      | None \<Rightarrow>
          (case doFetch w (strOf (NEWS_RSS_URL e)) of
             (Rejected, w1) \<Rightarrow> (Inl NetworkError, w1)
           | (Resolved ok xml, w1) \<Rightarrow>
               if \<not> ok then
                 (Inr \<lparr>status = 502, headers = cors, body = TextBody ''Failed to fetch RSS''\<rparr>, w1)
               else
                 saveAndReturn w1 req
                   \<lparr>status = 200,
                    headers = setHeader ''cache-control'' cacheControl
                      (setHeader ''content-type'' ''application/rss+xml; charset=utf-8'' cors),
                    body = TextBody xml\<rparr>))"

section \<open>Routing\<close>

text \<open>\<^verbatim>\<open>url.pathname.replace(/\/+$/, "")\<close>: the slashes at the end of the path are dropped.\<close>

definition stripTrailingSlashes :: "string \<Rightarrow> string" where
  "stripTrailingSlashes p = rev (dropWhile (\<lambda>c. c = CHR ''/'') (rev p))"

definition fetch ::
  "runtime \<Rightarrow> env \<Rightarrow> request \<Rightarrow> world \<Rightarrow> (js_error + response) \<times> world" where
  "fetch rt e req w =
     (let path = stripTrailingSlashes (pathname req);
          cors = corsHeaders e
      in if path = ''/'' then
           (Inr \<lparr>status = 200, headers = setHeader ''content-type'' ''text/plain'' cors,
                 body = TextBody ''OK''\<rparr>, w)
         else if endsWith ''/api/events/raw'' path then rawICS e req cors w
         else if endsWith ''/api/news/raw'' path then rawRSS e req cors w
         else if endsWith ''/api/events'' path then eventsJSON rt e req cors w
         else if endsWith ''/api/news'' path then newsJSON rt e req cors w
         else (Inr \<lparr>status = 404, headers = cors, body = TextBody ''Not found''\<rparr>, w))"

section \<open>Sample runtimes and worlds\<close>

text \<open>
  A sample of \<^verbatim>\<open>Number\<close>, for the runtimes of the examples: decimal literals without exponent,
  with an optional sign and surrounding white space; the empty string is 0. The value is the
  exact rational, where \<^verbatim>\<open>Number\<close> rounds to a double, and a literal with an exponent, which
  \<^verbatim>\<open>Number\<close> reads, is \<open>NaN\<close> here. The examples use the literal \<^verbatim>\<open>2.5\<close> only, which is a double.
\<close>

definition decimalNumber :: "string \<Rightarrow> jsnum" where
  "decimalNumber s =
     (let t = trim s;
          neg = (t \<noteq> [] \<and> hd t = CHR ''-'');
          u = (if t \<noteq> [] \<and> (hd t = CHR ''-'' \<or> hd t = CHR ''+'') then tl t else t);
          ip = takeWhile isDigit u;
          r = dropWhile isDigit u;
          fp = (if r \<noteq> [] \<and> hd r = CHR ''.'' then tl r else []);
          mag = of_nat (natOfDigits ip) + of_nat (natOfDigits fp) / 10 ^ length fp
      in if t = [] then Fin 0
         else if (ip \<noteq> [] \<or> fp \<noteq> []) \<and> (r = [] \<or> (hd r = CHR ''.'' \<and> allDigits fp))
           then Fin (if neg then - mag else mag)
         else NaN)"

text \<open>
  A runtime in UTC, as Cloudflare Workers are, at 2023-11-14T22:13:20Z; one two hours east
  of UTC; and one with the zone of Havana around 9 March 2025, where the clocks went from
  0:00 to 1:00 (five hours behind UTC before, four after). None of them parses a date
  outside the ECMAScript format.
\<close>

definition utcRuntime :: runtime where
  "utcRuntime =
     \<lparr>now = 1700000000000, offsetAtUTC = (\<lambda>_. 0), offsetAtLocal = (\<lambda>_. 0),
      implParse = (\<lambda>_. None), toNumber = decimalNumber\<rparr>"

definition eastRuntime :: runtime where
  "eastRuntime =
     \<lparr>now = 1700000000000, offsetAtUTC = (\<lambda>_. 120), offsetAtLocal = (\<lambda>_. 120),
      implParse = (\<lambda>_. None), toNumber = decimalNumber\<rparr>"

definition havanaRuntime :: runtime where
  "havanaRuntime =
     \<lparr>now = 1700000000000,
      offsetAtUTC = (\<lambda>t. if 1741496400000 \<le> t then - 240 else - 300),
      offsetAtLocal = (\<lambda>t. if 1741482000000 \<le> t then - 240 else - 300),
      implParse = (\<lambda>_. None), toNumber = decimalNumber\<rparr>"

definition deployedEnv :: env where
  "deployedEnv =
     \<lparr>ICAL_URL = Some ''https://cal.laget.se/HarnosandsHF.ics'',
      NEWS_RSS_URL = Some ''https://www.laget.se/HarnosandsHF/Home/NewsRss'',
      CORS_ORIGIN = None\<rparr>"

definition emptyEnv :: env where
  "emptyEnv = \<lparr>ICAL_URL = None, NEWS_RSS_URL = None, CORS_ORIGIN = None\<rparr>"

text \<open>A world with an empty cache whose upstream answers every fetch with \<open>text\<close>; in the
  second the cache refuses every \<^verbatim>\<open>put\<close>.\<close>

definition freshWorld :: "string \<Rightarrow> world" where
  "freshWorld text =
     \<lparr>edgeCache = (\<lambda>_. None), putRejects = (\<lambda>_. False),
      upstream = (\<lambda>_. Resolved True text), fetchLog = []\<rparr>"

definition rejectingWorld :: "string \<Rightarrow> world" where
  "rejectingWorld text =
     \<lparr>edgeCache = (\<lambda>_. None), putRejects = (\<lambda>_. True),
      upstream = (\<lambda>_. Resolved True text), fetchLog = []\<rparr>"

definition getRequest :: "string \<Rightarrow> (string \<times> string) list \<Rightarrow> request" where
  "getRequest path q = \<lparr>httpMethod = ''GET'', pathname = path, query = q\<rparr>"

text \<open>
  The fields of an ICS date or date-time token read as numbers, the time value they give
  when read as UTC (a bare date has no time fields and gives midnight), and the token
  written as an ISO string. A token is a real date when its month is 1 to 12 and its day
  is within the month, and a real time when it is from 00:00:00 to 23:59:59.
\<close>

definition tokenYear :: "string \<Rightarrow> int" where
  "tokenYear s = int (natOfDigits (slice 0 4 s))"

definition tokenMonth :: "string \<Rightarrow> nat" where
  "tokenMonth s = natOfDigits (slice 4 6 s)"

definition tokenDay :: "string \<Rightarrow> nat" where
  "tokenDay s = natOfDigits (slice 6 8 s)"

definition tokenHour :: "string \<Rightarrow> nat" where
  "tokenHour s = natOfDigits (slice 9 11 s)"

definition tokenMinute :: "string \<Rightarrow> nat" where
  "tokenMinute s = natOfDigits (slice 11 13 s)"

definition tokenSecond :: "string \<Rightarrow> nat" where
  "tokenSecond s = natOfDigits (slice 13 15 s)"

definition realDate :: "string \<Rightarrow> bool" where
  "realDate s \<longleftrightarrow>
     1 \<le> tokenMonth s \<and> tokenMonth s \<le> 12 \<and> 1 \<le> tokenDay s
     \<and> tokenDay s \<le> daysInMonth (inLeapYear (tokenYear s)) (tokenMonth s - 1)"

definition realTime :: "string \<Rightarrow> bool" where
  "realTime s \<longleftrightarrow> tokenHour s \<le> 23 \<and> tokenMinute s \<le> 59 \<and> tokenSecond s \<le> 59"

definition tokenTime :: "string \<Rightarrow> int" where
  "tokenTime s =
     makeDate (makeDay (tokenYear s) (tokenMonth s) (tokenDay s))
       (makeTime (tokenHour s) (tokenMinute s) (tokenSecond s) 0)"

definition dateISO :: "string \<Rightarrow> string" where
  "dateISO s = slice 0 4 s @ ''-'' @ slice 4 6 s @ ''-'' @ slice 6 8 s @ ''T00:00:00.000Z''"

definition dateTimeISO :: "string \<Rightarrow> string" where
  "dateTimeISO s =
     slice 0 4 s @ ''-'' @ slice 4 6 s @ ''-'' @ slice 6 8 s @ ''T'' @ slice 9 11 s @ '':''
       @ slice 11 13 s @ '':'' @ slice 13 15 s @ ''.000Z''"

text \<open>
  The local zone is regular at the local time value \<open>t\<close> when the offset at the instant that
  \<open>t\<close> denotes is the offset \<open>t\<close> was read with, and that offset is at most a day. Every zone
  with a fixed offset is regular everywhere; a zone is not regular inside the hour that a
  forward change of the clocks skips.
\<close>

definition zoneRegularAt :: "runtime \<Rightarrow> int \<Rightarrow> bool" where
  "zoneRegularAt rt t \<longleftrightarrow>
     offsetAtUTC rt (localToUTC rt t) = offsetAtLocal rt t \<and> \<bar>offsetAtLocal rt t\<bar> \<le> 1440"

text \<open>A zone with the fixed offset \<open>k\<close>, in minutes east of UTC.\<close>

definition fixedOffset :: "runtime \<Rightarrow> int \<Rightarrow> bool" where
  "fixedOffset rt k \<longleftrightarrow> (\<forall>t. offsetAtUTC rt t = k \<and> offsetAtLocal rt t = k)"

text \<open>A request for the events with the limit 2.5.\<close>

definition limitRequest :: request where
  "limitRequest = getRequest ''/api/events'' [(''limit'', ''2.5'')]"

text \<open>Three \<^verbatim>\<open>VEVENT\<close> blocks that carry a \<^verbatim>\<open>UID\<close> and no dates.\<close>

definition threeEvents :: string where
  "threeEvents =
     ''BEGIN:VEVENT'' @ [LF] @ ''UID:a'' @ [LF] @ ''END:VEVENT'' @ [LF]
     @ ''BEGIN:VEVENT'' @ [LF] @ ''UID:b'' @ [LF] @ ''END:VEVENT'' @ [LF]
     @ ''BEGIN:VEVENT'' @ [LF] @ ''UID:c'' @ [LF] @ ''END:VEVENT'' @ [LF]"

definition undatedEvent :: "string \<Rightarrow> string \<Rightarrow> event" where
  "undatedEvent stamp u =
     \<lparr>start = stamp, end' = stamp, isAllDay = False, summary = [], location = [], url = [],
      uid = u, calendar = ''Laget.se''\<rparr>"

text \<open>A feed of two items, the first with a \<^verbatim>\<open>pubDate\<close> that is no date; and an item whose
  title carries escaped markup.\<close>

definition twoItems :: string where
  "twoItems =
     ''<item><title>A</title><pubDate>soon</pubDate></item>''
     @ ''<item><title>B</title><pubDate>2025-01-01T00:00:00Z</pubDate></item>''"

definition plainItem :: "string \<Rightarrow> string \<Rightarrow> item" where
  "plainItem t p =
     \<lparr>title = t, link = [], guid = [], pubDate = p, description = [], enclosure = None,
      categories = []\<rparr>"

definition escapedItem :: string where
  "escapedItem = ''<item><title>&lt;b&gt;Goal!&lt;/b&gt; Report</title></item>''"

text \<open>
  A string is free of tags when \<^verbatim>\<open>/<\/?[^>]+>/\<close> matches nowhere in it: no \<^verbatim>\<open><\<close> is followed
  by a character other than \<^verbatim>\<open>>\<close> and, later, by a \<^verbatim>\<open>>\<close>.
\<close>

fun tagFree :: "string \<Rightarrow> bool" where
  "tagFree [] = True"
| "tagFree (c # cs) =
     ((c = CHR ''<'' \<longrightarrow> cs = [] \<or> hd cs = CHR ''>'' \<or> CHR ''>'' \<notin> set cs) \<and> tagFree cs)"

section \<open>Evaluation rules\<close>

lemmas str_defs = CR_def LF_def TAB_def SP_def DQ_def SQ_def slice_def startsWith_def
  allDigits_def isDigit_def natOfDigits_def digitVal_def

lemmas parse_defs = Date_parse_def parseDateTimeString_def parseYear_def parseTail_def
  twoDigits_def legalFields_def fieldsTime_def makeDay_def makeTime_def makeDate_def
  timeClip_def localToUTC_def dayFromYear_def inLeapYear_def monthStarts_def msPerDay_def

lemmas norm_defs = normalizeDates_def truthy_def strOf_def dateOnly_def dateTimeZ_def
  dateTimeLocal_def toUTCStringFromLocalParts_def toUTCStringFromLocalDateTime_def
  isoFromICSUTC_def bindE_def toISOString_def newDateStr_def newDateNum_def newDateNow_def
  getTime_def getTimezoneOffset_def numSub_def numAdd_def numMul_def

lemmas handler_defs = eventsJSON_def rawICS_def newsJSON_def rawRSS_def fromEdgeCache_def
  doFetch_def saveAndReturn_def saveToEdgeCache_def badRequest_def jsonResponse_def

section \<open>Routing\<close>

lemma stripTrailingSlashes_not_root: "stripTrailingSlashes p \<noteq> ''/''"
proof
  assume a: "stripTrailingSlashes p = ''/''"
  define d where "d = dropWhile (\<lambda>c. c = CHR ''/'') (rev p)"
  from a have "rev d = ''/''" unfolding stripTrailingSlashes_def d_def .
  then have "rev (rev d) = rev ''/''" by (rule arg_cong)
  then have eq: "d = [CHR ''/'']" by simp
  then have ne: "d \<noteq> []" by simp
  have "\<not> (hd d = CHR ''/'')"
    using hd_dropWhile [of "\<lambda>c. c = CHR ''/''" "rev p"] ne unfolding d_def by blast
  with eq show False by simp
qed

text \<open>
  C10. The claim has the exact path \<^verbatim>\<open>/\<close> answered by the plain-text liveness response. The
  handler strips the trailing slashes first, which turns \<^verbatim>\<open>/\<close> into the empty path, and
  compares the result with \<^verbatim>\<open>/\<close> afterwards: a request for \<^verbatim>\<open>/\<close> falls through to the 404
  response.
\<close>

theorem root_path_not_found:
  "fetch rt e \<lparr>httpMethod = m, pathname = ''/'', query = q\<rparr> w
     = (Inr \<lparr>status = 404, headers = corsHeaders e, body = TextBody ''Not found''\<rparr>, w)"
  by (simp add: fetch_def stripTrailingSlashes_def endsWith_def Let_def)

section \<open>Missing configuration\<close>

text \<open>
  C6. Each of the four operations, when its upstream URL is absent, returns the 400 response
  with the JSON body \<^verbatim>\<open>{error: "Missing <NAME> env"}\<close> and leaves the world as it was, so
  nothing was fetched; and no operation of one feed looks at the URL of the other feed.
\<close>

theorem missing_url_400:
  "(\<not> truthy (ICAL_URL e) \<longrightarrow>
      eventsJSON rt e req cors w = (Inr (badRequest ''Missing ICAL_URL env'' cors), w)
      \<and> rawICS e req cors w = (Inr (badRequest ''Missing ICAL_URL env'' cors), w))
   \<and> (\<not> truthy (NEWS_RSS_URL e) \<longrightarrow>
      newsJSON rt e req cors w = (Inr (badRequest ''Missing NEWS_RSS_URL env'' cors), w)
      \<and> rawRSS e req cors w = (Inr (badRequest ''Missing NEWS_RSS_URL env'' cors), w))
   \<and> status (badRequest msg cors) = 400
   \<and> body (badRequest msg cors) = JsonBody (JObj [(''error'', JStr msg)])
   \<and> eventsJSON rt (e\<lparr>NEWS_RSS_URL := u\<rparr>) req cors w = eventsJSON rt e req cors w
   \<and> rawICS (e\<lparr>NEWS_RSS_URL := u\<rparr>) req cors w = rawICS e req cors w
   \<and> newsJSON rt (e\<lparr>ICAL_URL := u\<rparr>) req cors w = newsJSON rt e req cors w
   \<and> rawRSS (e\<lparr>ICAL_URL := u\<rparr>) req cors w = rawRSS e req cors w"
  by (simp add: eventsJSON_def rawICS_def newsJSON_def rawRSS_def badRequest_def
      jsonResponse_def cong: option.case_cong)

theorem missing_url_400_witness:
  "\<not> truthy (ICAL_URL emptyEnv) \<and> \<not> truthy (NEWS_RSS_URL emptyEnv)
   \<and> eventsJSON utcRuntime emptyEnv (getRequest ''/api/events'' []) [] (freshWorld ''x'')
       = (Inr (badRequest ''Missing ICAL_URL env'' []), freshWorld ''x'')
   \<and> rawICS emptyEnv (getRequest ''/api/events/raw'' []) [] (freshWorld ''x'')
       = (Inr (badRequest ''Missing ICAL_URL env'' []), freshWorld ''x'')
   \<and> newsJSON utcRuntime emptyEnv (getRequest ''/api/news'' []) [] (freshWorld ''x'')
       = (Inr (badRequest ''Missing NEWS_RSS_URL env'' []), freshWorld ''x'')
   \<and> rawRSS emptyEnv (getRequest ''/api/news/raw'' []) [] (freshWorld ''x'')
       = (Inr (badRequest ''Missing NEWS_RSS_URL env'' []), freshWorld ''x'')"
  using missing_url_400 [of emptyEnv utcRuntime "getRequest ''/api/events'' []" "[]" "freshWorld ''x''"]
    missing_url_400 [of emptyEnv utcRuntime "getRequest ''/api/events/raw'' []" "[]" "freshWorld ''x''"]
    missing_url_400 [of emptyEnv utcRuntime "getRequest ''/api/news'' []" "[]" "freshWorld ''x''"]
    missing_url_400 [of emptyEnv utcRuntime "getRequest ''/api/news/raw'' []" "[]" "freshWorld ''x''"]
  by (simp add: emptyEnv_def truthy_def)

section \<open>The cache write\<close>

text \<open>
  C9. The claim has the cache write decoupled from the response. Every operation awaits
  \<^verbatim>\<open>saveToEdgeCache\<close> before it returns: when the cache refuses the \<^verbatim>\<open>put\<close>, the operation
  ends with the exception and no response is returned.
\<close>

theorem cache_write_failure_breaks_response:
  "fst (rawICS deployedEnv req cors (rejectingWorld text)) = Inl TypeError
   \<and> fst (rawRSS deployedEnv req cors (rejectingWorld text)) = Inl TypeError
   \<and> fst (newsJSON rt deployedEnv req cors (rejectingWorld text)) = Inl TypeError
   \<and> isl (fst (eventsJSON rt deployedEnv req cors (rejectingWorld text)))"
  by (simp add: handler_defs rejectingWorld_def deployedEnv_def truthy_def strOf_def Let_def
      split: sum.splits)

section \<open>Date normalisation\<close>

lemma normalizeDates_now:
  assumes "\<not> (truthy dtstart \<and> dateOnly (strOf dtstart))"
    and "\<not> (truthy dtstart \<and> dateTimeZ (strOf dtstart))"
    and "\<not> (truthy dtstart \<and> dateTimeLocal (strOf dtstart))"
  shows "normalizeDates rt dtstart dtend = Inr (isoString (now rt), isoString (now rt), False)"
proof -
  have c1: "(truthy dtstart \<and> dateOnly (strOf dtstart)) = False"
    and c2: "(truthy dtstart \<and> dateTimeZ (strOf dtstart)) = False"
    and c3: "(truthy dtstart \<and> dateTimeLocal (strOf dtstart)) = False"
    using assms by simp_all
  show ?thesis
    unfolding normalizeDates_def c1 c2 c3
    by (simp add: bindE_def toISOString_def newDateNow_def)
qed

text \<open>
  C7. A \<^verbatim>\<open>DTSTART\<close> that is absent, or that has none of the three shapes, makes
  \<^verbatim>\<open>normalizeDates\<close> return the clock reading for both start and end, with \<^verbatim>\<open>isAllDay\<close> false;
  the result is a value, not an exception.
\<close>

theorem normalizeDates_fallback:
  assumes "\<forall>s. dtstart = Some s \<longrightarrow> \<not> dateOnly s \<and> \<not> dateTimeZ s \<and> \<not> dateTimeLocal s"
  shows "normalizeDates rt dtstart dtend = Inr (isoString (now rt), isoString (now rt), False)"
proof (cases dtstart)
  case None
  then show ?thesis by (simp add: normalizeDates_now truthy_def)
next
  case (Some s)
  with assms have "\<not> dateOnly s" "\<not> dateTimeZ s" "\<not> dateTimeLocal s" by simp_all
  with Some show ?thesis by (simp add: normalizeDates_now strOf_def)
qed

theorem normalizeDates_fallback_witness:
  "normalizeDates utcRuntime (Some ''2025-01-01'') None
     = Inr (isoString (now utcRuntime), isoString (now utcRuntime), False)
   \<and> normalizeDates utcRuntime None (Some ''20250101'')
     = Inr (isoString (now utcRuntime), isoString (now utcRuntime), False)"
  using normalizeDates_fallback [of "Some ''2025-01-01''" utcRuntime None]
    normalizeDates_fallback [of None utcRuntime "Some ''20250101''"]
  by (simp add: dateOnly_def dateTimeZ_def dateTimeLocal_def)

lemma impossible_month_unparseable: "Date_parse rt ''2025-99-01T00:00:00'' = None"
  by (simp add: parse_defs str_defs)

lemma normalize_impossible_month: "normalizeDates rt (Some ''20259901'') None = Inl RangeError"
  by (simp add: norm_defs str_defs impossible_month_unparseable)

text \<open>
  C2. The claim has \<^verbatim>\<open>parseICS\<close> return a list of events for every text. A \<^verbatim>\<open>DTSTART\<close> of the
  bare-date shape with month 99 gives an invalid \<^verbatim>\<open>Date\<close>, on which \<^verbatim>\<open>toISOString\<close> throws:
  \<^verbatim>\<open>parseICS\<close> ends with a \<^verbatim>\<open>RangeError\<close> and returns nothing.
\<close>

theorem parseICS_throws_on_impossible_month:
  "parseICS rt (''BEGIN:VEVENT'' @ [LF] @ ''DTSTART:20259901'' @ [LF] @ ''END:VEVENT'' @ [LF])
     = Inl RangeError"
  by (simp add: parseICS_def str_defs toUpperCase_def upperChar_def normalize_impossible_month)

section \<open>The calendar\<close>

lemma div_succ:
  fixes n k :: int
  assumes "0 < k"
  shows "(n + 1) div k = n div k + (if (n + 1) mod k = 0 then 1 else 0)"
proof -
  define q where "q = (n + 1) div k"
  define r where "r = (n + 1) mod k"
  have eq: "n + 1 = k * q + r" unfolding q_def r_def by simp
  have r0: "0 \<le> r" and rk: "r < k" unfolding r_def using assms by simp_all
  show ?thesis
  proof (cases "r = 0")
    case True
    have "n = k * (q - 1) + (k - 1)" using eq True by (simp add: algebra_simps)
    then have "n div k = q - 1" by (rule int_div_pos_eq) (use assms in simp_all)
    then show ?thesis using True unfolding q_def r_def by simp
  next
    case False
    have "n = k * q + (r - 1)" using eq by simp
    then have "n div k = q" by (rule int_div_pos_eq) (use r0 rk False in simp_all)
    then show ?thesis using False unfolding q_def r_def by simp
  qed
qed

lemma mod_shift_4: "((y::int) - 1968) mod 4 = y mod 4"
proof -
  have "y - 1968 = y + (- 492) * 4" by simp
  then show ?thesis by (metis mod_mult_self1)
qed

lemma mod_shift_100: "((y::int) - 1900) mod 100 = y mod 100"
proof -
  have "y - 1900 = y + (- 19) * 100" by simp
  then show ?thesis by (metis mod_mult_self1)
qed

lemma mod_shift_400: "((y::int) - 1600) mod 400 = y mod 400"
proof -
  have "y - 1600 = y + (- 4) * 400" by simp
  then show ?thesis by (metis mod_mult_self1)
qed

lemma dayFromYear_Suc:
  "dayFromYear (y + 1) = dayFromYear y + (if inLeapYear y then 366 else 365)"
proof -
  have a: "(y + 1 - 1969) div 4 = (y - 1969) div 4 + (if y mod 4 = 0 then 1 else 0)"
    using div_succ [of 4 "y - 1969"] mod_shift_4 [of y] by (simp add: algebra_simps)
  have b: "(y + 1 - 1901) div 100 = (y - 1901) div 100 + (if y mod 100 = 0 then 1 else 0)"
    using div_succ [of 100 "y - 1901"] mod_shift_100 [of y] by (simp add: algebra_simps)
  have c: "(y + 1 - 1601) div 400 = (y - 1601) div 400 + (if y mod 400 = 0 then 1 else 0)"
    using div_succ [of 400 "y - 1601"] mod_shift_400 [of y] by (simp add: algebra_simps)
  have d: "y mod 100 = 0" if "y mod 400 = 0"
  proof -
    have "(100::int) dvd 400" by simp
    moreover have "400 dvd y" using that by (simp add: mod_eq_0_iff_dvd)
    ultimately have "100 dvd y" by (rule dvd_trans)
    then show ?thesis by (simp add: mod_eq_0_iff_dvd)
  qed
  have e: "y mod 4 = 0" if "y mod 100 = 0"
  proof -
    have "(4::int) dvd 100" by simp
    moreover have "100 dvd y" using that by (simp add: mod_eq_0_iff_dvd)
    ultimately have "4 dvd y" by (rule dvd_trans)
    then show ?thesis by (simp add: mod_eq_0_iff_dvd)
  qed
  show ?thesis unfolding dayFromYear_def inLeapYear_def a b c using d e by auto
qed

lemma dayFromYear_less_Suc: "dayFromYear y < dayFromYear (y + 1)"
  by (simp add: dayFromYear_Suc)

lemma dayFromYear_mono: "y \<le> y' \<Longrightarrow> dayFromYear y \<le> dayFromYear y'"
proof (induction y' rule: int_ge_induct)
  case base
  show ?case by simp
next
  case (step i)
  then show ?case using dayFromYear_less_Suc [of i] by simp
qed

lemma yearUp_reaches:
  assumes "dayFromYear Y \<le> d" and "d < dayFromYear (Y + 1)" and "y \<le> Y"
  shows "yearUp y d = Y"
  using assms(3)
proof (induction y rule: int_le_induct)
  case base
  show ?case using assms(2) by (simp add: yearUp.simps [of Y d])
next
  case (step i)
  have "dayFromYear i \<le> d" using dayFromYear_mono [OF step.hyps] assms(1) by simp
  then show ?case using step.IH by (simp add: yearUp.simps [of "i - 1" d])
qed

lemma yearUp_stays:
  assumes "d < dayFromYear (Y + 1)" and "Y \<le> y"
  shows "yearUp y d = y"
proof -
  have "dayFromYear (Y + 1) \<le> dayFromYear (y + 1)" using assms(2) by (simp add: dayFromYear_mono)
  then show ?thesis using assms(1) by (simp add: yearUp.simps [of y d])
qed

lemma yearDown_reaches:
  assumes "dayFromYear Y \<le> d" and "d < dayFromYear (Y + 1)" and "Y \<le> y"
  shows "yearDown y d = Y"
  using assms(3)
proof (induction y rule: int_ge_induct)
  case base
  show ?case using assms(1) by (simp add: yearDown.simps [of Y d])
next
  case (step i)
  have "dayFromYear (Y + 1) \<le> dayFromYear (i + 1)" using step.hyps by (simp add: dayFromYear_mono)
  then have "d < dayFromYear (i + 1)" using assms(2) by simp
  then show ?case using step.IH by (simp add: yearDown.simps [of "i + 1" d])
qed

lemma yearFromDay_eq:
  assumes "dayFromYear Y \<le> d" and "d < dayFromYear (Y + 1)"
  shows "yearFromDay d = Y"
proof (cases "1970 + d div 366 \<le> Y")
  case True
  then have "yearUp (1970 + d div 366) d = Y" by (rule yearUp_reaches [OF assms])
  then show ?thesis using yearDown_reaches [OF assms, of Y] by (simp add: yearFromDay_def)
next
  case False
  then have le: "Y \<le> 1970 + d div 366" by simp
  have "yearUp (1970 + d div 366) d = 1970 + d div 366" by (rule yearUp_stays [OF assms(2) le])
  then show ?thesis using yearDown_reaches [OF assms le] by (simp add: yearFromDay_def)
qed

lemma month_cases:
  assumes "1 \<le> m" and "m \<le> (12::nat)"
  shows "m = 1 \<or> m = 2 \<or> m = 3 \<or> m = 4 \<or> m = 5 \<or> m = 6 \<or> m = 7 \<or> m = 8 \<or> m = 9
    \<or> m = 10 \<or> m = 11 \<or> m = 12"
  using assms by arith

lemma month_day_inverse:
  assumes "1 \<le> m" and "m \<le> 12" and "1 \<le> d" and "d \<le> daysInMonth leap (m - 1)"
  shows "monthFromDoy leap (monthStarts leap ! (m - 1) + int d - 1) = m - 1"
    and "dateFromDoy leap (monthStarts leap ! (m - 1) + int d - 1) = d"
    and "0 \<le> monthStarts leap ! (m - 1) + int d - 1"
    and "monthStarts leap ! (m - 1) + int d - 1 < (if leap then 366 else 365)"
proof -
  note defs = monthFromDoy_def dateFromDoy_def monthStarts_def daysInMonth_def Let_def
  have "(monthFromDoy leap (monthStarts leap ! (m - 1) + int d - 1) = m - 1
      \<and> dateFromDoy leap (monthStarts leap ! (m - 1) + int d - 1) = d)
    \<and> 0 \<le> monthStarts leap ! (m - 1) + int d - 1
    \<and> monthStarts leap ! (m - 1) + int d - 1 < (if leap then 366 else 365)"
  proof (cases leap)
    case True
    show ?thesis
      using month_cases [OF assms(1,2)] assms(3,4)
      by (elim disjE) (simp_all add: defs True)
  next
    case False
    show ?thesis
      using month_cases [OF assms(1,2)] assms(3,4)
      by (elim disjE) (simp_all add: defs False)
  qed
  then show "monthFromDoy leap (monthStarts leap ! (m - 1) + int d - 1) = m - 1"
    and "dateFromDoy leap (monthStarts leap ! (m - 1) + int d - 1) = d"
    and "0 \<le> monthStarts leap ! (m - 1) + int d - 1"
    and "monthStarts leap ! (m - 1) + int d - 1 < (if leap then 366 else 365)"
    by simp_all
qed

lemma makeTime_bounds:
  assumes "h \<le> 23" and "mi \<le> 59" and "s \<le> 59" and "ms \<le> 999"
  shows "0 \<le> makeTime h mi s ms" and "makeTime h mi s ms < msPerDay"
  using assms by (simp_all add: makeTime_def msPerDay_def)

lemma div_mod_block:
  fixes q r k :: nat
  assumes "r < k"
  shows "(q * k + r) div k = q" and "(q * k + r) mod k = r"
  using assms by simp_all

lemma makeTime_parts:
  assumes "h \<le> 23" and "mi \<le> 59" and "s \<le> 59" and "ms \<le> 999"
  shows "nat (makeTime h mi s ms) div 3600000 = h"
    and "nat (makeTime h mi s ms) div 60000 mod 60 = mi"
    and "nat (makeTime h mi s ms) div 1000 mod 60 = s"
    and "nat (makeTime h mi s ms) mod 1000 = ms"
proof -
  define n where "n = nat (makeTime h mi s ms)"
  have n: "n = h * 3600000 + mi * 60000 + s * 1000 + ms"
    by (simp add: n_def makeTime_def nat_add_distrib nat_mult_distrib)
  have n1: "n = h * 3600000 + (mi * 60000 + s * 1000 + ms)" using n by simp
  have n2: "n = (h * 60 + mi) * 60000 + (s * 1000 + ms)" using n by simp
  have n3: "n = ((h * 60 + mi) * 60 + s) * 1000 + ms" using n by simp
  have b1: "mi * 60000 + s * 1000 + ms < 3600000" using assms by simp
  have b2: "s * 1000 + ms < 60000" using assms by simp
  have b3: "ms < 1000" using assms by simp
  have b4: "mi < 60" "s < 60" using assms by simp_all
  have "n div 3600000 = h" unfolding n1 using b1 by (rule div_mod_block)
  moreover have "n div 60000 = h * 60 + mi" unfolding n2 using b2 by (rule div_mod_block)
  then have "n div 60000 mod 60 = mi" using b4(1) by (simp add: div_mod_block)
  moreover have "n div 1000 = (h * 60 + mi) * 60 + s" unfolding n3 using b3 by (rule div_mod_block)
  then have "n div 1000 mod 60 = s" using b4(2) by (simp only: div_mod_block)
  moreover have "n mod 1000 = ms" unfolding n3 using b3 by (rule div_mod_block)
  ultimately show "nat (makeTime h mi s ms) div 3600000 = h"
    and "nat (makeTime h mi s ms) div 60000 mod 60 = mi"
    and "nat (makeTime h mi s ms) div 1000 mod 60 = s"
    and "nat (makeTime h mi s ms) mod 1000 = ms"
    unfolding n_def by simp_all
qed

lemma makeDate_parts:
  assumes "0 \<le> tod" and "tod < msPerDay"
  shows "makeDate day tod div msPerDay = day" and "makeDate day tod mod msPerDay = tod"
proof -
  have e: "makeDate day tod = msPerDay * day + tod" by (simp add: makeDate_def)
  show "makeDate day tod div msPerDay = day" using e assms by (rule int_div_pos_eq)
  show "makeDate day tod mod msPerDay = tod" using e assms by (rule int_mod_pos_eq)
qed

section \<open>Digits and ISO strings\<close>

lemma digitVal_less: "digitVal c < 10"
  by (simp add: digitVal_def)

lemma digitChar_digitVal: "isDigit c \<Longrightarrow> digitChar (digitVal c) = c"
  by (auto simp add: isDigit_def digitChar_def digitVal_def)

lemma natOfDigits_snoc: "natOfDigits (ds @ [c]) = 10 * natOfDigits ds + digitVal c"
  by (simp add: natOfDigits_def)

lemma natOfDigits_less: "natOfDigits ds < 10 ^ length ds"
proof (induction ds rule: rev_induct)
  case Nil
  show ?case by (simp add: natOfDigits_def)
next
  case (snoc c ds)
  have "10 * natOfDigits ds + digitVal c < 10 * natOfDigits ds + 10"
    using digitVal_less [of c] by simp
  also have "\<dots> = 10 * (natOfDigits ds + 1)" by simp
  also have "\<dots> \<le> 10 * 10 ^ length ds" using snoc.IH by (simp only: mult_le_mono2 Suc_leI Suc_eq_plus1 [symmetric])
  finally show ?case by (simp add: natOfDigits_snoc)
qed

lemma pad_natOfDigits: "allDigits ds \<Longrightarrow> pad (length ds) (natOfDigits ds) = ds"
proof (induction ds rule: rev_induct)
  case Nil
  show ?case by simp
next
  case (snoc c ds)
  then have d: "allDigits ds" and c: "isDigit c" by (simp_all add: allDigits_def)
  have v: "digitVal c < 10" by (rule digitVal_less)
  have q: "(10 * natOfDigits ds + digitVal c) div 10 = natOfDigits ds" using v by simp
  have r: "(10 * natOfDigits ds + digitVal c) mod 10 = digitVal c" using v by simp
  have r': "digitVal c mod 10 = digitVal c" using v by simp
  show ?case using snoc.IH [OF d] c by (simp add: natOfDigits_snoc q r r' digitChar_digitVal)
qed

lemma isoString_fields:
  assumes "1 \<le> m" and "m \<le> 12" and "1 \<le> d" and "d \<le> daysInMonth (inLeapYear y) (m - 1)"
    and "h \<le> 23" and "mi \<le> 59" and "s \<le> 59" and "ms \<le> 999"
  shows "isoString (makeDate (makeDay y m d) (makeTime h mi s ms))
    = yearString y @ ''-'' @ pad 2 m @ ''-'' @ pad 2 d @ ''T'' @ pad 2 h @ '':'' @ pad 2 mi
        @ '':'' @ pad 2 s @ ''.'' @ pad 3 ms @ ''Z''"
proof -
  define tod where "tod = makeTime h mi s ms"
  define day where "day = makeDay y m d"
  define doy where "doy = monthStarts (inLeapYear y) ! (m - 1) + int d - 1"
  note tb = makeTime_bounds [OF assms(5-8), folded tod_def]
  note tp = makeTime_parts [OF assms(5-8), folded tod_def]
  note md = month_day_inverse [OF assms(1-4), folded doy_def]
  have dd: "makeDate day tod div msPerDay = day" and dm: "makeDate day tod mod msPerDay = tod"
    using makeDate_parts [OF tb] by simp_all
  have day: "day = dayFromYear y + doy" by (simp add: day_def doy_def makeDay_def)
  have "doy < dayFromYear (y + 1) - dayFromYear y" using md(4) by (simp add: dayFromYear_Suc)
  then have yr: "yearFromDay day = y" using md(3) by (intro yearFromDay_eq) (simp_all add: day)
  have doy': "day - dayFromYear y = doy" by (simp add: day)
  have m1: "Suc (m - Suc 0) = m" using assms(1) by simp
  show ?thesis
    unfolding tod_def [symmetric] day_def [symmetric]
    by (simp add: isoString_def Let_def dd dm yr doy' md(1,2) m1 tp)
qed

lemma digit_not_sign: "isDigit c \<Longrightarrow> c \<noteq> CHR ''+'' \<and> c \<noteq> CHR ''-''"
  by (auto simp add: isDigit_def)

lemma length8: "length s = 8 \<Longrightarrow> \<exists>a b c d e f g h. s = [a, b, c, d, e, f, g, h]"
  by (auto simp add: eval_nat_numeral length_Suc_conv)

lemma length15:
  "length s = 15 \<Longrightarrow> \<exists>a b c d e f g h t i j k l m n. s = [a, b, c, d, e, f, g, h, t, i, j, k, l, m, n]"
  by (auto simp add: eval_nat_numeral length_Suc_conv)

lemma parse_explicit:
  assumes "isDigit y1" "isDigit y2" "isDigit y3" "isDigit y4" "isDigit m1" "isDigit m2"
    "isDigit d1" "isDigit d2" "isDigit h1" "isDigit h2" "isDigit i1" "isDigit i2"
    "isDigit s1" "isDigit s2"
  shows "parseDateTimeString
      ([y1, y2, y3, y4] @ ''-'' @ [m1, m2] @ ''-'' @ [d1, d2] @ ''T'' @ [h1, h2] @ '':''
         @ [i1, i2] @ '':'' @ [s1, s2] @ tail)
    = (case parseTail tail of
         None \<Rightarrow> None
       | Some (ms, z) \<Rightarrow>
           Some (Fields (int (natOfDigits [y1, y2, y3, y4])) (natOfDigits [m1, m2])
             (natOfDigits [d1, d2]) (natOfDigits [h1, h2]) (natOfDigits [i1, i2])
             (natOfDigits [s1, s2]) ms z))"
  using assms digit_not_sign [OF assms(1)]
  by (simp add: parseDateTimeString_def parseYear_def twoDigits_def allDigits_def slice_def
      split: option.splits)

lemma pad2_digits: "isDigit a \<Longrightarrow> isDigit b \<Longrightarrow> pad 2 (natOfDigits [a, b]) = [a, b]"
  using pad_natOfDigits [of "[a, b]"] by (simp add: allDigits_def numeral_2_eq_2)

lemma pad_zero: "pad 2 0 = ''00''" "pad 3 0 = ''000''"
  by (simp_all add: numeral_2_eq_2 numeral_3_eq_3 digitChar_def)

lemma year_digits:
  assumes "isDigit a" "isDigit b" "isDigit c" "isDigit d"
  shows "yearString (int (natOfDigits [a, b, c, d])) = [a, b, c, d]"
proof -
  have len: "length [a, b, c, d] = 4" by simp
  have "pad (length [a, b, c, d]) (natOfDigits [a, b, c, d]) = [a, b, c, d]"
    by (rule pad_natOfDigits) (simp add: allDigits_def assms)
  then have p: "pad 4 (natOfDigits [a, b, c, d]) = [a, b, c, d]" unfolding len .
  have "natOfDigits [a, b, c, d] < 10 ^ length [a, b, c, d]" by (rule natOfDigits_less)
  then have "natOfDigits [a, b, c, d] < 10000" unfolding len by simp
  then show ?thesis by (simp add: yearString_def p)
qed

lemma daysInMonth_le: "m \<le> 11 \<Longrightarrow> daysInMonth leap m \<le> 31"
proof -
  assume "m \<le> 11"
  then have "m = 0 \<or> m = 1 \<or> m = 2 \<or> m = 3 \<or> m = 4 \<or> m = 5 \<or> m = 6 \<or> m = 7 \<or> m = 8
      \<or> m = 9 \<or> m = 10 \<or> m = 11" by arith
  then show ?thesis by (elim disjE) (simp_all add: daysInMonth_def)
qed

lemma dayFromYear_range:
  assumes "0 \<le> y" and "y \<le> 9999"
  shows "- 719528 \<le> dayFromYear y" and "dayFromYear y \<le> 2932532"
proof -
  have "dayFromYear 0 \<le> dayFromYear y" using assms(1) by (rule dayFromYear_mono)
  then show "- 719528 \<le> dayFromYear y" by (simp add: dayFromYear_def)
  have "dayFromYear y \<le> dayFromYear 9999" using assms(2) by (rule dayFromYear_mono)
  then show "dayFromYear y \<le> 2932532" by (simp add: dayFromYear_def)
qed

lemma fields_time_range:
  assumes "0 \<le> y" and "y \<le> 9999"
    and "1 \<le> m" and "m \<le> 12" and "1 \<le> d" and "d \<le> daysInMonth (inLeapYear y) (m - 1)"
    and "h \<le> 23" and "mi \<le> 59" and "s \<le> 59"
  shows "\<bar>makeDate (makeDay y m d) (makeTime h mi s 0)\<bar> \<le> 300000000000000"
proof -
  define doy where "doy = monthStarts (inLeapYear y) ! (m - 1) + int d - 1"
  define tod where "tod = makeTime h mi s 0"
  note md = month_day_inverse [OF assms(3-6), folded doy_def]
  have tb: "0 \<le> tod" "tod < 86400000"
    using makeTime_bounds [OF assms(7-9), of 0] by (simp_all add: tod_def msPerDay_def)
  have doy: "0 \<le> doy" "doy < 366" using md(3,4) by (simp_all split: if_splits)
  note yr = dayFromYear_range [OF assms(1,2)]
  have "makeDate (makeDay y m d) (makeTime h mi s 0) = (dayFromYear y + doy) * 86400000 + tod"
    by (simp add: makeDate_def makeDay_def doy_def tod_def msPerDay_def)
  then show ?thesis using tb doy yr by simp
qed

lemma offset_cancel:
  assumes "zoneRegularAt rt t" and "\<bar>t\<bar> \<le> 300000000000000"
    and "dt = timeClip (localToUTC rt t)"
  shows "newDateNum (numSub (getTime dt) (numMul (getTimezoneOffset rt dt) (Some 60000))) = Some t"
proof -
  define k where "k = offsetAtLocal rt t"
  have k: "\<bar>k\<bar> \<le> 1440" and c: "offsetAtUTC rt (t - 60000 * k) = k"
    using assms(1) by (simp_all add: zoneRegularAt_def localToUTC_def k_def)
  have u: "localToUTC rt t = t - 60000 * k" by (simp add: localToUTC_def k_def)
  have "\<bar>t - 60000 * k\<bar> \<le> 8640000000000000" using assms(2) k by simp
  then have dt: "dt = Some (t - 60000 * k)" by (simp add: assms(3) u timeClip_def)
  have "\<bar>t\<bar> \<le> 8640000000000000" using assms(2) by simp
  then show ?thesis
    by (simp add: dt getTime_def getTimezoneOffset_def numMul_def numSub_def newDateNum_def c
        timeClip_def)
qed

section \<open>Tokens\<close>

lemma parse_built:
  assumes "isDigit y1" "isDigit y2" "isDigit y3" "isDigit y4" "isDigit m1" "isDigit m2"
    "isDigit d1" "isDigit d2" "isDigit h1" "isDigit h2" "isDigit i1" "isDigit i2"
    "isDigit s1" "isDigit s2"
    and "parseTail tail = Some (0, z)"
    and "F = Fields (int (natOfDigits [y1, y2, y3, y4])) (natOfDigits [m1, m2])
             (natOfDigits [d1, d2]) (natOfDigits [h1, h2]) (natOfDigits [i1, i2])
             (natOfDigits [s1, s2]) 0 z"
    and "legalFields F"
  shows "Date_parse rt
      ([y1, y2, y3, y4] @ ''-'' @ [m1, m2] @ ''-'' @ [d1, d2] @ ''T'' @ [h1, h2] @ '':''
         @ [i1, i2] @ '':'' @ [s1, s2] @ tail)
    = timeClip (if z then fieldsTime F else localToUTC rt (fieldsTime F))"
  unfolding Date_parse_def parse_explicit [OF assms(1-14)] assms(15)
  using assms(16,17) by simp

lemma parseTail_cases:
  "parseTail [] = Some (0, False)" "parseTail ''Z'' = Some (0, True)"
  "parseTail ''.000Z'' = Some (0, True)"
  by (simp_all add: parseTail_def slice_def allDigits_def isDigit_def natOfDigits_def digitVal_def)

lemma zero_digit: "isDigit (CHR ''0'')" "natOfDigits ''00'' = 0" "natOfDigits [] = 0"
  by (simp_all add: isDigit_def natOfDigits_def digitVal_def)

text \<open>What a bare-date token is: its parts, its time value, its ISO string.\<close>

lemma bare_date_token:
  assumes "dateOnly s" and "realDate s"
  shows "Date_parse rt (slice 0 4 s @ ''-'' @ slice 4 6 s @ ''-'' @ slice 6 8 s @ ''T00:00:00'')
           = timeClip (localToUTC rt (tokenTime s))"
    and "Date_parse rt (dateISO s) = Some (tokenTime s)"
    and "isoString (tokenTime s) = dateISO s"
    and "\<bar>tokenTime s\<bar> \<le> 300000000000000"
proof -
  from assms(1) obtain a b c d e f g h where s: "s = [a, b, c, d, e, f, g, h]"
    using length8 [of s] by (auto simp add: dateOnly_def)
  have dig: "isDigit a" "isDigit b" "isDigit c" "isDigit d" "isDigit e" "isDigit f" "isDigit g"
    "isDigit h"
    using assms(1) by (simp_all add: s dateOnly_def allDigits_def)
  have tk: "tokenYear s = int (natOfDigits [a, b, c, d])" "tokenMonth s = natOfDigits [e, f]"
    "tokenDay s = natOfDigits [g, h]" "tokenHour s = 0" "tokenMinute s = 0" "tokenSecond s = 0"
    by (simp_all add: s tokenYear_def tokenMonth_def tokenDay_def tokenHour_def tokenMinute_def
        tokenSecond_def slice_def zero_digit)
  have sl: "slice 0 4 s = [a, b, c, d]" "slice 4 6 s = [e, f]" "slice 6 8 s = [g, h]"
    by (simp_all add: s slice_def)
  have rd: "1 \<le> tokenMonth s" "tokenMonth s \<le> 12" "1 \<le> tokenDay s"
    "tokenDay s \<le> daysInMonth (inLeapYear (tokenYear s)) (tokenMonth s - 1)"
    using assms(2) by (simp_all add: realDate_def)
  have "tokenMonth s - 1 \<le> 11" using rd(2) by simp
  then have "daysInMonth (inLeapYear (tokenYear s)) (tokenMonth s - 1) \<le> 31"
    by (rule daysInMonth_le)
  with rd(4) have d31: "tokenDay s \<le> 31" by (rule order_trans)
  have yr: "0 \<le> tokenYear s" "tokenYear s \<le> 9999"
    using natOfDigits_less [of "[a, b, c, d]"] by (simp_all add: tk)
  define F where "F z = Fields (int (natOfDigits [a, b, c, d])) (natOfDigits [e, f])
             (natOfDigits [g, h]) (natOfDigits ''00'') (natOfDigits ''00'')
             (natOfDigits ''00'') 0 z" for z
  have legal: "legalFields (F z)" for z
    using rd(1-3) d31 by (simp add: F_def legalFields_def tk zero_digit)
  have ft: "fieldsTime (F z) = tokenTime s" for z
    by (simp add: F_def fieldsTime_def tokenTime_def tk zero_digit)
  show rng: "\<bar>tokenTime s\<bar> \<le> 300000000000000"
    unfolding tokenTime_def
    by (rule fields_time_range [OF yr rd]) (simp_all add: tk)
  have "Date_parse rt ([a, b, c, d] @ ''-'' @ [e, f] @ ''-'' @ [g, h] @ ''T'' @ ''00'' @ '':''
         @ ''00'' @ '':'' @ ''00'' @ [])
      = timeClip (if False then fieldsTime (F False) else localToUTC rt (fieldsTime (F False)))"
    by (rule parse_built [OF dig zero_digit(1) zero_digit(1) zero_digit(1) zero_digit(1)
          zero_digit(1) zero_digit(1) parseTail_cases(1) F_def legal])
  then show "Date_parse rt (slice 0 4 s @ ''-'' @ slice 4 6 s @ ''-'' @ slice 6 8 s @ ''T00:00:00'')
           = timeClip (localToUTC rt (tokenTime s))"
    by (simp add: sl ft)
  have "Date_parse rt ([a, b, c, d] @ ''-'' @ [e, f] @ ''-'' @ [g, h] @ ''T'' @ ''00'' @ '':''
         @ ''00'' @ '':'' @ ''00'' @ ''.000Z'')
      = timeClip (if True then fieldsTime (F True) else localToUTC rt (fieldsTime (F True)))"
    by (rule parse_built [OF dig zero_digit(1) zero_digit(1) zero_digit(1) zero_digit(1)
          zero_digit(1) zero_digit(1) parseTail_cases(3) F_def legal])
  then show "Date_parse rt (dateISO s) = Some (tokenTime s)"
    using rng by (simp add: sl ft dateISO_def timeClip_def)
  have "isoString (makeDate (makeDay (tokenYear s) (tokenMonth s) (tokenDay s)) (makeTime 0 0 0 0))
    = yearString (tokenYear s) @ ''-'' @ pad 2 (tokenMonth s) @ ''-'' @ pad 2 (tokenDay s) @ ''T''
        @ pad 2 0 @ '':'' @ pad 2 0 @ '':'' @ pad 2 0 @ ''.'' @ pad 3 0 @ ''Z''"
    by (rule isoString_fields [OF rd]) simp_all
  then show "isoString (tokenTime s) = dateISO s"
    by (simp add: tokenTime_def tk dateISO_def sl pad_zero year_digits [OF dig(1-4)]
        pad2_digits [OF dig(5,6)] pad2_digits [OF dig(7,8)])
qed

lemma local_token:
  assumes "dateTimeLocal s" and "realDate s" and "realTime s"
  shows "Date_parse rt (slice 0 4 s @ ''-'' @ slice 4 6 s @ ''-'' @ slice 6 8 s @ ''T''
             @ slice 9 11 s @ '':'' @ slice 11 13 s @ '':'' @ slice 13 15 s)
           = timeClip (localToUTC rt (tokenTime s))"
    and "Date_parse rt (slice 0 4 s @ ''-'' @ slice 4 6 s @ ''-'' @ slice 6 8 s @ ''T''
             @ slice 9 11 s @ '':'' @ slice 11 13 s @ '':'' @ slice 13 15 s @ ''Z'')
           = Some (tokenTime s)"
    and "isoString (tokenTime s) = dateTimeISO s"
    and "\<bar>tokenTime s\<bar> \<le> 300000000000000"
proof -
  from assms(1) obtain a b c d e f g h t i j k l m n
    where s: "s = [a, b, c, d, e, f, g, h, t, i, j, k, l, m, n]"
    using length15 [of s] by (auto simp add: dateTimeLocal_def)
  have dig: "isDigit a" "isDigit b" "isDigit c" "isDigit d" "isDigit e" "isDigit f" "isDigit g"
    "isDigit h" "isDigit i" "isDigit j" "isDigit k" "isDigit l" "isDigit m" "isDigit n"
    using assms(1) by (simp_all add: s dateTimeLocal_def allDigits_def slice_def)
  have tk: "tokenYear s = int (natOfDigits [a, b, c, d])" "tokenMonth s = natOfDigits [e, f]"
    "tokenDay s = natOfDigits [g, h]" "tokenHour s = natOfDigits [i, j]"
    "tokenMinute s = natOfDigits [k, l]" "tokenSecond s = natOfDigits [m, n]"
    by (simp_all add: s tokenYear_def tokenMonth_def tokenDay_def tokenHour_def tokenMinute_def
        tokenSecond_def slice_def)
  have sl: "slice 0 4 s = [a, b, c, d]" "slice 4 6 s = [e, f]" "slice 6 8 s = [g, h]"
    "slice 9 11 s = [i, j]" "slice 11 13 s = [k, l]" "slice 13 15 s = [m, n]"
    by (simp_all add: s slice_def)
  have rd: "1 \<le> tokenMonth s" "tokenMonth s \<le> 12" "1 \<le> tokenDay s"
    "tokenDay s \<le> daysInMonth (inLeapYear (tokenYear s)) (tokenMonth s - 1)"
    using assms(2) by (simp_all add: realDate_def)
  have rt: "tokenHour s \<le> 23" "tokenMinute s \<le> 59" "tokenSecond s \<le> 59"
    using assms(3) by (simp_all add: realTime_def)
  have "tokenMonth s - 1 \<le> 11" using rd(2) by simp
  then have "daysInMonth (inLeapYear (tokenYear s)) (tokenMonth s - 1) \<le> 31"
    by (rule daysInMonth_le)
  with rd(4) have d31: "tokenDay s \<le> 31" by (rule order_trans)
  have yr: "0 \<le> tokenYear s" "tokenYear s \<le> 9999"
    using natOfDigits_less [of "[a, b, c, d]"] by (simp_all add: tk)
  define F where "F z = Fields (int (natOfDigits [a, b, c, d])) (natOfDigits [e, f])
             (natOfDigits [g, h]) (natOfDigits [i, j]) (natOfDigits [k, l])
             (natOfDigits [m, n]) 0 z" for z
  have legal: "legalFields (F z)" for z
    using rd(1-3) d31 rt by (simp add: F_def legalFields_def tk)
  have ft: "fieldsTime (F z) = tokenTime s" for z
    by (simp add: F_def fieldsTime_def tokenTime_def tk)
  show rng: "\<bar>tokenTime s\<bar> \<le> 300000000000000"
    unfolding tokenTime_def by (rule fields_time_range [OF yr rd rt])
  have "Date_parse rt ([a, b, c, d] @ ''-'' @ [e, f] @ ''-'' @ [g, h] @ ''T'' @ [i, j] @ '':''
         @ [k, l] @ '':'' @ [m, n] @ [])
      = timeClip (if False then fieldsTime (F False) else localToUTC rt (fieldsTime (F False)))"
    by (rule parse_built [OF dig parseTail_cases(1) F_def legal])
  then show "Date_parse rt (slice 0 4 s @ ''-'' @ slice 4 6 s @ ''-'' @ slice 6 8 s @ ''T''
             @ slice 9 11 s @ '':'' @ slice 11 13 s @ '':'' @ slice 13 15 s)
           = timeClip (localToUTC rt (tokenTime s))"
    by (simp add: sl ft)
  have "Date_parse rt ([a, b, c, d] @ ''-'' @ [e, f] @ ''-'' @ [g, h] @ ''T'' @ [i, j] @ '':''
         @ [k, l] @ '':'' @ [m, n] @ ''Z'')
      = timeClip (if True then fieldsTime (F True) else localToUTC rt (fieldsTime (F True)))"
    by (rule parse_built [OF dig parseTail_cases(2) F_def legal])
  then show "Date_parse rt (slice 0 4 s @ ''-'' @ slice 4 6 s @ ''-'' @ slice 6 8 s @ ''T''
             @ slice 9 11 s @ '':'' @ slice 11 13 s @ '':'' @ slice 13 15 s @ ''Z'')
           = Some (tokenTime s)"
    using rng by (simp add: sl ft timeClip_def)
  have "isoString (makeDate (makeDay (tokenYear s) (tokenMonth s) (tokenDay s))
          (makeTime (tokenHour s) (tokenMinute s) (tokenSecond s) 0))
    = yearString (tokenYear s) @ ''-'' @ pad 2 (tokenMonth s) @ ''-'' @ pad 2 (tokenDay s) @ ''T''
        @ pad 2 (tokenHour s) @ '':'' @ pad 2 (tokenMinute s) @ '':'' @ pad 2 (tokenSecond s)
        @ ''.'' @ pad 3 0 @ ''Z''"
    by (rule isoString_fields [OF rd rt]) simp
  then show "isoString (tokenTime s) = dateTimeISO s"
    by (simp add: tokenTime_def tk dateTimeISO_def sl pad_zero year_digits [OF dig(1-4)]
        pad2_digits [OF dig(5,6)] pad2_digits [OF dig(7,8)] pad2_digits [OF dig(9,10)]
        pad2_digits [OF dig(11,12)] pad2_digits [OF dig(13,14)])
qed

lemma bare_date_start:
  assumes "dateOnly s" and "realDate s" and "zoneRegularAt rt (tokenTime s)"
  shows "toUTCStringFromLocalParts rt s ''000000'' = Inr (dateISO s)"
proof -
  note tk = bare_date_token [OF assms(1,2)]
  have "newDateNum (numSub (getTime (timeClip (localToUTC rt (tokenTime s))))
          (numMul (getTimezoneOffset rt (timeClip (localToUTC rt (tokenTime s)))) (Some 60000)))
        = Some (tokenTime s)"
    by (rule offset_cancel [OF assms(3) tk(4) refl])
  then show ?thesis
    using tk(1) by (simp add: toUTCStringFromLocalParts_def newDateStr_def slice_def tk(3)
        toISOString_def)
qed

lemma floating_start:
  assumes "dateTimeLocal s" and "realDate s" and "realTime s"
    and "zoneRegularAt rt (tokenTime s)"
  shows "toUTCStringFromLocalDateTime rt s = Inr (dateTimeISO s)"
proof -
  note tk = local_token [OF assms(1-3)]
  have "newDateNum (numSub (getTime (timeClip (localToUTC rt (tokenTime s))))
          (numMul (getTimezoneOffset rt (timeClip (localToUTC rt (tokenTime s)))) (Some 60000)))
        = Some (tokenTime s)"
    by (rule offset_cancel [OF assms(4) tk(4) refl])
  then show ?thesis
    using tk(1) by (simp add: toUTCStringFromLocalDateTime_def newDateStr_def tk(3)
        toISOString_def)
qed

section \<open>All-day events\<close>

lemmas token_defs = tokenTime_def tokenYear_def tokenMonth_def tokenDay_def tokenHour_def
  tokenMinute_def tokenSecond_def realDate_def realTime_def daysInMonth_def

lemmas token_eval = token_defs slice_def natOfDigits_def digitVal_def makeDate_def makeDay_def
  makeTime_def dayFromYear_def inLeapYear_def monthStarts_def msPerDay_def

lemmas shape_eval = dateOnly_def dateTimeZ_def dateTimeLocal_def allDigits_def isDigit_def
  slice_def

text \<open>
  What the bare-date branch does where it works: for a real calendar date, in a local zone
  that is regular at that date's midnight, and a \<^verbatim>\<open>DTEND\<close> that is absent or not a bare date,
  the start is midnight UTC of the date and the end is 24 hours later. The example is the
  date 20250101 with no \<^verbatim>\<open>DTEND\<close>.
\<close>

lemma bare_date_all_day:
  assumes "dateOnly s" and "realDate s" and "zoneRegularAt rt (tokenTime s)"
    and "\<not> (truthy dtend \<and> dateOnly (strOf dtend))"
  shows "normalizeDates rt (Some s) dtend
           = Inr (dateISO s, isoString (tokenTime s + 24 * 3600 * 1000), True)
         \<and> dateISO s = isoString (tokenTime s)"
proof -
  note tk = bare_date_token [OF assms(1,2)]
  have st: "toUTCStringFromLocalParts rt s ''000000'' = Inr (dateISO s)"
    by (rule bare_date_start [OF assms(1-3)])
  have c1: "(truthy (Some s) \<and> dateOnly (strOf (Some s))) = True"
    using assms(1) by (auto simp add: truthy_def strOf_def dateOnly_def)
  have c2: "(truthy dtend \<and> dateOnly (strOf dtend)) = False" using assms(4) by simp
  have e: "toISOString (newDateNum (numAdd (getTime (newDateStr rt (dateISO s)))
              (Some 86400000)))
           = Inr (isoString (tokenTime s + 86400000))"
    using tk(4) by (simp add: newDateStr_def tk(2) getTime_def numAdd_def newDateNum_def
        timeClip_def toISOString_def)
  show ?thesis
    unfolding normalizeDates_def c1 c2 by (simp add: strOf_def st bindE_def e tk(3))
qed

lemma bare_date_example:
  "normalizeDates eastRuntime (Some ''20250101'') None
     = Inr (''2025-01-01T00:00:00.000Z'', ''2025-01-02T00:00:00.000Z'', True)"
proof -
  have d: "dateOnly ''20250101''" by (simp add: shape_eval)
  have r: "realDate ''20250101''" by (simp add: token_eval)
  have z: "zoneRegularAt eastRuntime (tokenTime ''20250101'')"
    by (simp add: zoneRegularAt_def eastRuntime_def)
  have n: "\<not> (truthy None \<and> dateOnly (strOf None))" by (simp add: truthy_def)
  have d2: "dateOnly ''20250102''" by (simp add: shape_eval)
  have r2: "realDate ''20250102''" by (simp add: token_eval)
  have "tokenTime ''20250101'' + 24 * 3600 * 1000 = tokenTime ''20250102''"
    by (simp add: token_eval)
  then have "isoString (tokenTime ''20250101'' + 24 * 3600 * 1000) = ''2025-01-02T00:00:00.000Z''"
    using bare_date_token(3) [OF d2 r2] by (simp add: dateISO_def slice_def)
  then show ?thesis
    using bare_date_all_day [OF d r z n] by (simp add: dateISO_def slice_def)
qed

lemma toISOString_error: "toISOString tv = Inl e \<Longrightarrow> e = RangeError"
  by (cases tv) (simp_all add: toISOString_def)

lemma impossible_end_unparseable:
  "toUTCStringFromLocalParts rt ''20259901'' ''000000'' = Inl RangeError"
  by (simp add: toUTCStringFromLocalParts_def slice_def newDateStr_def
      impossible_month_unparseable getTime_def getTimezoneOffset_def numMul_def numSub_def
      newDateNum_def toISOString_def)

lemma normalize_impossible_end:
  "normalizeDates rt (Some ''20250101'') (Some ''20259901'') = Inl RangeError"
proof -
  have c1: "(truthy (Some ''20250101'') \<and> dateOnly (strOf (Some ''20250101''))) = True"
    by (simp add: truthy_def strOf_def shape_eval)
  have c2: "(truthy (Some ''20259901'') \<and> dateOnly (strOf (Some ''20259901''))) = True"
    by (simp add: truthy_def strOf_def shape_eval)
  have e: "toUTCStringFromLocalParts rt (strOf (Some ''20259901'')) ''000000'' = Inl RangeError"
    by (simp add: strOf_def impossible_end_unparseable)
  show ?thesis
  proof (cases "toUTCStringFromLocalParts rt (strOf (Some ''20250101'')) ''000000''")
    case (Inl err)
    then have "err = RangeError"
      unfolding toUTCStringFromLocalParts_def Let_def by (rule toISOString_error)
    then show ?thesis
      unfolding normalizeDates_def c1 c2 if_True Inl by (simp add: bindE_def)
  next
    case (Inr st)
    show ?thesis
      unfolding normalizeDates_def c1 c2 if_True Inr e by (simp add: bindE_def)
  qed
qed

text \<open>
  The block of the claim's example, with \<^verbatim>\<open>DTSTART:20250101\<close> and no \<^verbatim>\<open>DTEND\<close>, parsed two hours
  east of UTC: one all-day event from midnight UTC to the next midnight.
\<close>

lemma all_day_event_example:
  "parseICS eastRuntime
     (''BEGIN:VEVENT'' @ [LF] @ ''DTSTART:20250101'' @ [LF] @ ''END:VEVENT'' @ [LF])
   = Inr [\<lparr>start = ''2025-01-01T00:00:00.000Z'', end' = ''2025-01-02T00:00:00.000Z'',
           isAllDay = True, summary = [], location = [], url = [], uid = [],
           calendar = ''Laget.se''\<rparr>]"
  by (simp add: parseICS_def str_defs toUpperCase_def upperChar_def bare_date_example bindE_def
      orEmpty_def)

text \<open>
  C1. The claim has every \<^verbatim>\<open>VEVENT\<close> block whose \<^verbatim>\<open>DTSTART\<close> is a bare date parsed into an
  event with \<^verbatim>\<open>isAllDay\<close> true that starts at midnight UTC of the date. For the block with
  \<^verbatim>\<open>DTSTART:20250101\<close> and \<^verbatim>\<open>DTEND:20259901\<close> the bare-date branch converts the end as
  well, \<^verbatim>\<open>toISOString\<close> throws on the invalid \<^verbatim>\<open>Date\<close>, and \<^verbatim>\<open>parseICS\<close> ends with the
  exception: there is no event, in any runtime.
\<close>

theorem all_day_event_lost_to_impossible_end:
  "parseICS rt
     (''BEGIN:VEVENT'' @ [LF] @ ''DTSTART:20250101'' @ [LF] @ ''DTEND:20259901'' @ [LF]
        @ ''END:VEVENT'' @ [LF])
   = Inl RangeError"
  by (simp add: parseICS_def str_defs toUpperCase_def upperChar_def normalize_impossible_end)

section \<open>Floating times\<close>

lemma iso_of_local_token:
  assumes "dateTimeLocal s" and "realDate s" and "realTime s" and "t = tokenTime s"
  shows "isoString t = dateTimeISO s"
  using local_token(3) [OF assms(1-3)] assms(4) by simp

text \<open>
  With a floating start the end is computed from \<^verbatim>\<open>DTEND\<close>, whatever it is, and the start and
  \<^verbatim>\<open>isAllDay\<close> do not depend on it.
\<close>

lemma floating_normalize:
  assumes "dateTimeLocal s" and "realDate s" and "realTime s"
    and "zoneRegularAt rt (tokenTime s)"
  shows "normalizeDates rt (Some s) dtend
    = bindE (if truthy dtend then
               (if dateTimeLocal (strOf dtend) then toUTCStringFromLocalDateTime rt (strOf dtend)
                else if dateTimeZ (strOf dtend) then isoFromICSUTC rt (strOf dtend)
                else Inr (dateTimeISO s))
             else Inr (dateTimeISO s))
        (\<lambda>e. Inr (dateTimeISO s, e, False))"
proof -
  have len: "length s = 15" using assms(1) by (simp add: dateTimeLocal_def)
  have so: "strOf (Some s) = s" by (simp add: strOf_def)
  have c1: "(truthy (Some s) \<and> dateOnly s) = False"
    using len by (simp add: dateOnly_def)
  have c2: "(truthy (Some s) \<and> dateTimeZ s) = False"
    using len by (simp add: dateTimeZ_def)
  have c3: "(truthy (Some s) \<and> dateTimeLocal s) = True"
    using assms(1) len by (auto simp add: truthy_def)
  show ?thesis
    unfolding normalizeDates_def so c1 c2 c3
    by (simp add: bindE_def floating_start [OF assms])
qed

lemma floating_no_end:
  assumes "dateTimeLocal s" and "realDate s" and "realTime s"
    and "zoneRegularAt rt (tokenTime s)"
  shows "normalizeDates rt (Some s) None = Inr (dateTimeISO s, dateTimeISO s, False)"
  by (simp add: floating_normalize [OF assms] truthy_def bindE_def)

lemma floating_as_utc:
  assumes "dateTimeLocal s" and "realDate s" and "realTime s"
  shows "isoFromICSUTC rt (s @ ''Z'') = Inr (dateTimeISO s)"
proof -
  have len: "length s = 15" using assms(1) by (simp add: dateTimeLocal_def)
  have sl: "slice 0 4 (s @ ''Z'') = slice 0 4 s" "slice 4 6 (s @ ''Z'') = slice 4 6 s"
    "slice 6 8 (s @ ''Z'') = slice 6 8 s" "slice 9 11 (s @ ''Z'') = slice 9 11 s"
    "slice 11 13 (s @ ''Z'') = slice 11 13 s" "slice 13 15 (s @ ''Z'') = slice 13 15 s"
    using len by (simp_all add: slice_def)
  note tk = local_token [OF assms]
  show ?thesis
    unfolding isoFromICSUTC_def sl Let_def newDateStr_def tk(2)
    by (simp add: toISOString_def tk(3))
qed

text \<open>
  In the zone of Havana the local time 00:30 of 9 March 2025 is inside the hour that the
  clocks skipped. The fields are read with the offset before the change, five hours, and
  moved back by the offset after it, four hours: the start is 01:30 UTC.
\<close>

lemma iso_0309_0130: "isoString 1741483800000 = ''2025-03-09T01:30:00.000Z''"
proof -
  have "isoString 1741483800000 = dateTimeISO ''20250309T013000''"
    by (rule iso_of_local_token) (simp_all add: shape_eval token_eval dateTimeLocal_def)
  then show ?thesis by (simp add: dateTimeISO_def slice_def)
qed

lemma havana_skipped_time:
  "normalizeDates havanaRuntime (Some ''20250309T003000'') None
     = Inr (''2025-03-09T01:30:00.000Z'', ''2025-03-09T01:30:00.000Z'', False)"
proof -
  have d: "dateTimeLocal ''20250309T003000''" by (simp add: shape_eval)
  have n1: "\<not> dateOnly ''20250309T003000''" by (simp add: dateOnly_def)
  have n2: "\<not> dateTimeZ ''20250309T003000''" by (simp add: dateTimeZ_def)
  have r: "realDate ''20250309T003000''" by (simp add: token_eval)
  have t: "realTime ''20250309T003000''" by (simp add: token_eval)
  have v: "tokenTime ''20250309T003000'' = 1741480200000" by (simp add: token_eval)
  have p: "Date_parse havanaRuntime ''2025-03-09T00:30:00'' = Some 1741498200000"
    using local_token(1) [OF d r t, of havanaRuntime]
    by (simp add: slice_def v localToUTC_def havanaRuntime_def timeClip_def)
  have o: "offsetAtUTC havanaRuntime 1741498200000 = - 240" by (simp add: havanaRuntime_def)
  have st: "toUTCStringFromLocalDateTime havanaRuntime ''20250309T003000''
      = Inr ''2025-03-09T01:30:00.000Z''"
    by (simp add: toUTCStringFromLocalDateTime_def slice_def newDateStr_def p getTime_def
        getTimezoneOffset_def numMul_def numSub_def newDateNum_def timeClip_def toISOString_def
        iso_0309_0130 o)
  show ?thesis
    by (simp add: normalizeDates_def truthy_def strOf_def d n1 n2 st bindE_def)
qed

lemma utc_skipped_time:
  "normalizeDates utcRuntime (Some ''20250309T003000'') None
     = Inr (''2025-03-09T00:30:00.000Z'', ''2025-03-09T00:30:00.000Z'', False)"
proof -
  have d: "dateTimeLocal ''20250309T003000''" by (simp add: shape_eval)
  have r: "realDate ''20250309T003000''" by (simp add: token_eval)
  have t: "realTime ''20250309T003000''" by (simp add: token_eval)
  have z: "zoneRegularAt utcRuntime (tokenTime ''20250309T003000'')"
    by (simp add: zoneRegularAt_def utcRuntime_def)
  show ?thesis
    using floating_no_end [OF d r t z] by (simp add: dateTimeISO_def slice_def)
qed

text \<open>
  C8, as amended. A floating date-time token is parsed in the local zone and the result is
  then moved back by \<^verbatim>\<open>getTimezoneOffset\<close> of the parsed instant, which undoes the conversion
  wherever the zone is regular: for a token that is a real date and time, in a local zone
  that is regular at that time (every zone with a fixed offset is), the start is the numeric
  fields read as UTC, the string that the token with a \<^verbatim>\<open>Z\<close> gives; this holds for every
  \<^verbatim>\<open>DTEND\<close>, from which only the end is computed, and the result is an exception only when
  the conversion of \<^verbatim>\<open>DTEND\<close> throws. The result still depends on the zone: for the token
  20250309T003000 a run in the zone of Havana, whose clocks skipped that time, starts the
  event at 01:30 UTC and a run in UTC at 00:30 UTC.
\<close>

theorem floating_time_fields_as_utc:
  "(dateTimeLocal s \<and> realDate s \<and> realTime s \<and> zoneRegularAt rt (tokenTime s) \<longrightarrow>
      toUTCStringFromLocalDateTime rt s = Inr (dateTimeISO s)
      \<and> dateTimeISO s = isoString (tokenTime s)
      \<and> isoFromICSUTC rt (s @ ''Z'') = Inr (dateTimeISO s)
      \<and> normalizeDates rt (Some s) dtend
          = bindE (if truthy dtend then
                     (if dateTimeLocal (strOf dtend)
                        then toUTCStringFromLocalDateTime rt (strOf dtend)
                      else if dateTimeZ (strOf dtend) then isoFromICSUTC rt (strOf dtend)
                      else Inr (dateTimeISO s))
                   else Inr (dateTimeISO s))
              (\<lambda>e. Inr (dateTimeISO s, e, False))
      \<and> normalizeDates rt (Some s) None = Inr (dateTimeISO s, dateTimeISO s, False))
   \<and> normalizeDates havanaRuntime (Some ''20250309T003000'') None
       = Inr (''2025-03-09T01:30:00.000Z'', ''2025-03-09T01:30:00.000Z'', False)
   \<and> normalizeDates utcRuntime (Some ''20250309T003000'') None
       = Inr (''2025-03-09T00:30:00.000Z'', ''2025-03-09T00:30:00.000Z'', False)"
proof -
  have "toUTCStringFromLocalDateTime rt s = Inr (dateTimeISO s)
      \<and> dateTimeISO s = isoString (tokenTime s)
      \<and> isoFromICSUTC rt (s @ ''Z'') = Inr (dateTimeISO s)
      \<and> normalizeDates rt (Some s) dtend
          = bindE (if truthy dtend then
                     (if dateTimeLocal (strOf dtend)
                        then toUTCStringFromLocalDateTime rt (strOf dtend)
                      else if dateTimeZ (strOf dtend) then isoFromICSUTC rt (strOf dtend)
                      else Inr (dateTimeISO s))
                   else Inr (dateTimeISO s))
              (\<lambda>e. Inr (dateTimeISO s, e, False))
      \<and> normalizeDates rt (Some s) None = Inr (dateTimeISO s, dateTimeISO s, False)"
    if a: "dateTimeLocal s" "realDate s" "realTime s" "zoneRegularAt rt (tokenTime s)"
    using floating_start [OF a] local_token(3) [OF a(1-3)] floating_as_utc [OF a(1-3)]
      floating_normalize [OF a, of dtend] floating_no_end [OF a]
    by simp
  then show ?thesis
    using havana_skipped_time utc_skipped_time by blast
qed

text \<open>
  Two hours east of UTC a start of 18:00 with an end of 20:00: the event runs from 18:00 to
  20:00 UTC.
\<close>

theorem floating_time_fields_as_utc_witness:
  "dateTimeLocal ''20250615T180000'' \<and> realDate ''20250615T180000''
   \<and> realTime ''20250615T180000''
   \<and> zoneRegularAt eastRuntime (tokenTime ''20250615T180000'')
   \<and> toUTCStringFromLocalDateTime eastRuntime ''20250615T180000''
       = Inr ''2025-06-15T18:00:00.000Z''
   \<and> isoFromICSUTC eastRuntime ''20250615T180000Z'' = Inr ''2025-06-15T18:00:00.000Z''
   \<and> normalizeDates eastRuntime (Some ''20250615T180000'') (Some ''20250615T200000'')
       = Inr (''2025-06-15T18:00:00.000Z'', ''2025-06-15T20:00:00.000Z'', False)
   \<and> normalizeDates eastRuntime (Some ''20250615T180000'') None
       = Inr (''2025-06-15T18:00:00.000Z'', ''2025-06-15T18:00:00.000Z'', False)"
proof -
  have d: "dateTimeLocal ''20250615T180000''" by (simp add: shape_eval)
  have r: "realDate ''20250615T180000''" by (simp add: token_eval)
  have t: "realTime ''20250615T180000''" by (simp add: token_eval)
  have z: "zoneRegularAt eastRuntime (tokenTime ''20250615T180000'')"
    by (simp add: zoneRegularAt_def eastRuntime_def)
  have d': "dateTimeLocal ''20250615T200000''" by (simp add: shape_eval)
  have r': "realDate ''20250615T200000''" by (simp add: token_eval)
  have t': "realTime ''20250615T200000''" by (simp add: token_eval)
  have z': "zoneRegularAt eastRuntime (tokenTime ''20250615T200000'')"
    by (simp add: zoneRegularAt_def eastRuntime_def)
  have e: "toUTCStringFromLocalDateTime eastRuntime ''20250615T200000''
      = Inr ''2025-06-15T20:00:00.000Z''"
    using floating_start [OF d' r' t' z'] by (simp add: dateTimeISO_def slice_def)
  have i: "dateTimeISO ''20250615T180000'' = ''2025-06-15T18:00:00.000Z''"
    by (simp add: dateTimeISO_def slice_def)
  have y: "truthy (Some ''20250615T200000'')" "strOf (Some ''20250615T200000'') = ''20250615T200000''"
    by (simp_all add: truthy_def strOf_def)
  show ?thesis
    using floating_time_fields_as_utc [of "''20250615T180000''" eastRuntime
        "Some ''20250615T200000''"] d r t z
    by (simp add: i y d' e bindE_def)
qed

lemma iso_0615_1600: "isoString 1750003200000 = ''2025-06-15T16:00:00.000Z''"
proof -
  have "isoString 1750003200000 = dateTimeISO ''20250615T160000''"
    by (rule iso_of_local_token) (simp_all add: shape_eval token_eval dateTimeLocal_def)
  then show ?thesis by (simp add: dateTimeISO_def slice_def)
qed

text \<open>
  The claim has the instant be the numeric fields read in the local zone. Two hours east of
  UTC the token 20250615T180000 read in the local zone, as \<^verbatim>\<open>new Date\<close> reads it, is the
  instant 16:00 UTC; the start that the normaliser returns is 18:00 UTC.
\<close>

theorem floating_time_not_local_instant:
  "Date_parse eastRuntime ''2025-06-15T18:00:00'' = Some 1750003200000
   \<and> isoString 1750003200000 = ''2025-06-15T16:00:00.000Z''
   \<and> normalizeDates eastRuntime (Some ''20250615T180000'') None
       = Inr (''2025-06-15T18:00:00.000Z'', ''2025-06-15T18:00:00.000Z'', False)"
proof -
  have d: "dateTimeLocal ''20250615T180000''" by (simp add: shape_eval)
  have r: "realDate ''20250615T180000''" by (simp add: token_eval)
  have t: "realTime ''20250615T180000''" by (simp add: token_eval)
  have z: "zoneRegularAt eastRuntime (tokenTime ''20250615T180000'')"
    by (simp add: zoneRegularAt_def eastRuntime_def)
  have v: "tokenTime ''20250615T180000'' = 1750010400000" by (simp add: token_eval)
  have p: "Date_parse eastRuntime ''2025-06-15T18:00:00'' = Some 1750003200000"
    using local_token(1) [OF d r t, of eastRuntime]
    by (simp add: slice_def v localToUTC_def eastRuntime_def timeClip_def)
  show ?thesis
    using floating_no_end [OF d r t z] p
    by (simp add: iso_0615_1600 dateTimeISO_def slice_def)
qed

section \<open>Limits and counts\<close>

lemma params_in_range:
  "1 \<le> daysParam rt req \<and> daysParam rt req \<le> 3650
   \<and> 1 \<le> limitParam rt req n \<and> limitParam rt req n \<le> 500"
  by (simp add: daysParam_def limitParam_def clamp_def MAX_LIMIT_def)

lemma params_default:
  assumes "searchParam req ''days'' = None" and "searchParam req ''limit'' = None"
  shows "daysParam rt req = 365" and "limitParam rt req n = max 1 (min 500 (of_nat n))"
  using assms
  by (simp_all add: daysParam_def limitParam_def int_js_def orDefault_def clamp_def
      DEFAULT_DAYS_AHEAD_def MAX_LIMIT_def)

lemma parse_three_events:
  "parseICS rt threeEvents
     = Inr [undatedEvent (isoString (now rt)) ''a'', undatedEvent (isoString (now rt)) ''b'',
            undatedEvent (isoString (now rt)) ''c'']"
proof -
  have n: "normalizeDates rt None None = Inr (isoString (now rt), isoString (now rt), False)"
    by (rule normalizeDates_now) (simp_all add: truthy_def)
  show ?thesis
    by (simp add: parseICS_def threeEvents_def str_defs toUpperCase_def upperChar_def n
        orEmpty_def undatedEvent_def)
qed

lemma now_utc: "isoString (now utcRuntime) = ''2023-11-14T22:13:20.000Z''"
proof -
  have "isoString (now utcRuntime) = dateTimeISO ''20231114T221320''"
    by (rule iso_of_local_token) (simp_all add: shape_eval token_eval utcRuntime_def)
  then show ?thesis by (simp add: dateTimeISO_def slice_def)
qed

lemma parse_now_utc: "Date_parse utcRuntime ''2023-11-14T22:13:20.000Z'' = Some 1700000000000"
  by (simp add: parse_defs str_defs)

lemma start_of_day_utc: "startOfDayUTC (newDateNow utcRuntime) = Some 1699920000000"
proof -
  have y: "yearFromDay 19675 = 2023"
    by (rule yearFromDay_eq) (simp_all add: dayFromYear_def)
  have d: "(1700000000000::int) div 86400000 = 19675" by simp
  have m: "monthFromDoy False 317 = 10" by (simp add: monthFromDoy_def)
  have dt: "dateFromDoy False 317 = 14" by (simp add: dateFromDoy_def m monthStarts_def)
  have l: "inLeapYear 2023 = False" by (simp add: inLeapYear_def)
  have f: "dayFromYear 2023 = 19358" by (simp add: dayFromYear_def)
  have "startOfDayUTC (Some 1700000000000)
      = timeClip (makeDate (makeDay 2023 (monthFromDoy False 317 + 1) (dateFromDoy False 317)) 0)"
    unfolding startOfDayUTC_def option.case msPerDay_def d Let_def y l f by simp
  then show ?thesis
    by (simp add: newDateNow_def utcRuntime_def m dt makeDate_def makeDay_def f l monthStarts_def
        msPerDay_def timeClip_def)
qed

lemma decimal_two_and_a_half: "decimalNumber ''2.5'' = Fin (5 / 2)"
  by (simp add: decimalNumber_def trim_def isSpace_def str_defs Let_def)

lemma floor_five_halves: "\<lfloor>5 / 2 :: rat\<rfloor> = 2"
  by linarith

lemma truncate_five_halves: "nat (truncate (5 / 2)) = 2"
  by (simp add: truncate_def floor_five_halves)

lemma limit_two_and_a_half: "limitParam utcRuntime limitRequest 3 = 5 / 2"
  by (simp add: limitParam_def limitRequest_def getRequest_def searchParam_def int_js_def
      utcRuntime_def decimal_two_and_a_half orDefault_def clamp_def MAX_LIMIT_def)

lemma days_default: "daysParam utcRuntime limitRequest = 365"
  by (simp add: daysParam_def limitRequest_def getRequest_def searchParam_def int_js_def
      orDefault_def clamp_def DEFAULT_DAYS_AHEAD_def)

lemma until_utc:
  "newDateRat (map_option (\<lambda>t. of_int t + 365 * 24 * 3600 * 1000) (getTime (newDateNow utcRuntime)))
     = Some 1731536000000"
  by (simp add: newDateRat_def getTime_def newDateNow_def utcRuntime_def truncate_def)

lemma upcoming_three:
  "upcomingEvents utcRuntime limitRequest
     [undatedEvent ''2023-11-14T22:13:20.000Z'' ''a'', undatedEvent ''2023-11-14T22:13:20.000Z'' ''b'',
      undatedEvent ''2023-11-14T22:13:20.000Z'' ''c'']
   = [undatedEvent ''2023-11-14T22:13:20.000Z'' ''a'', undatedEvent ''2023-11-14T22:13:20.000Z'' ''b'',
      undatedEvent ''2023-11-14T22:13:20.000Z'' ''c'']"
  unfolding upcomingEvents_def Let_def days_default until_utc start_of_day_utc
  by (simp add: undatedEvent_def newDateStr_def parse_now_utc timeLe_def sortBy_def numSub_def
      nanToZero_def)

lemma payload_two_and_a_half:
  "eventsPayload utcRuntime limitRequest
     [undatedEvent ''2023-11-14T22:13:20.000Z'' ''a'', undatedEvent ''2023-11-14T22:13:20.000Z'' ''b'',
      undatedEvent ''2023-11-14T22:13:20.000Z'' ''c'']
   = JObj [(''updatedAt'', JStr ''2023-11-14T22:13:20.000Z''), (''count'', JNum (5 / 2)),
           (''events'', JArr [eventJson (undatedEvent ''2023-11-14T22:13:20.000Z'' ''a''),
                             eventJson (undatedEvent ''2023-11-14T22:13:20.000Z'' ''b'')])]"
proof -
  have l: "limitParam utcRuntime limitRequest (Suc (Suc (Suc 0))) = 5 / 2"
    using limit_two_and_a_half by (simp add: numeral_3_eq_3)
  show ?thesis
    unfolding eventsPayload_def Let_def upcoming_three
    by (simp add: l truncate_five_halves now_utc)
qed

text \<open>
  C4. The claim has \<^verbatim>\<open>count\<close> equal to the number of events returned. \<^verbatim>\<open>int\<close> keeps a fraction:
  with \<^verbatim>\<open>limit=2.5\<close> and three upcoming events the response holds two events and reports
  the count 2.5.
\<close>

theorem fractional_limit_count:
  "fst (eventsJSON utcRuntime deployedEnv limitRequest (corsHeaders deployedEnv)
          (freshWorld threeEvents))
   = Inr \<lparr>status = 200,
          headers = setHeader ''cache-control'' cacheControl
            (setHeader ''content-type'' ''application/json; charset=utf-8''
               (corsHeaders deployedEnv)),
          body = JsonBody
            (JObj [(''updatedAt'', JStr ''2023-11-14T22:13:20.000Z''), (''count'', JNum (5 / 2)),
                   (''events'', JArr [eventJson (undatedEvent ''2023-11-14T22:13:20.000Z'' ''a''),
                                     eventJson (undatedEvent ''2023-11-14T22:13:20.000Z'' ''b'')])])\<rparr>"
proof -
  have p: "parseICS utcRuntime threeEvents
     = Inr [undatedEvent ''2023-11-14T22:13:20.000Z'' ''a'',
            undatedEvent ''2023-11-14T22:13:20.000Z'' ''b'',
            undatedEvent ''2023-11-14T22:13:20.000Z'' ''c'']"
    by (simp add: parse_three_events now_utc)
  have t: "truthy (ICAL_URL deployedEnv)" by (simp add: deployedEnv_def truthy_def)
  show ?thesis
    unfolding eventsJSON_def
    by (simp add: t fromEdgeCache_def freshWorld_def doFetch_def p payload_two_and_a_half
        saveAndReturn_def saveToEdgeCache_def jsonResponse_def Let_def)
qed

section \<open>The order of the news\<close>

lemma upperChar_table:
  "upperChar (CHR 0x09) = CHR 0x09"
  "upperChar (CHR 0x0A) = CHR 0x0A"
  "upperChar (CHR 0x0D) = CHR 0x0D"
  "upperChar (CHR 0x20) = CHR 0x20"
  "upperChar (CHR 0x21) = CHR 0x21"
  "upperChar (CHR 0x22) = CHR 0x22"
  "upperChar (CHR 0x23) = CHR 0x23"
  "upperChar (CHR 0x24) = CHR 0x24"
  "upperChar (CHR 0x25) = CHR 0x25"
  "upperChar (CHR 0x26) = CHR 0x26"
  "upperChar (CHR 0x27) = CHR 0x27"
  "upperChar (CHR 0x28) = CHR 0x28"
  "upperChar (CHR 0x29) = CHR 0x29"
  "upperChar (CHR 0x2A) = CHR 0x2A"
  "upperChar (CHR 0x2B) = CHR 0x2B"
  "upperChar (CHR 0x2C) = CHR 0x2C"
  "upperChar (CHR 0x2D) = CHR 0x2D"
  "upperChar (CHR 0x2E) = CHR 0x2E"
  "upperChar (CHR 0x2F) = CHR 0x2F"
  "upperChar (CHR ''0'') = CHR ''0''"
  "upperChar (CHR ''1'') = CHR ''1''"
  "upperChar (CHR ''2'') = CHR ''2''"
  "upperChar (CHR ''3'') = CHR ''3''"
  "upperChar (CHR ''4'') = CHR ''4''"
  "upperChar (CHR ''5'') = CHR ''5''"
  "upperChar (CHR ''6'') = CHR ''6''"
  "upperChar (CHR ''7'') = CHR ''7''"
  "upperChar (CHR ''8'') = CHR ''8''"
  "upperChar (CHR ''9'') = CHR ''9''"
  "upperChar (CHR 0x3A) = CHR 0x3A"
  "upperChar (CHR 0x3B) = CHR 0x3B"
  "upperChar (CHR 0x3C) = CHR 0x3C"
  "upperChar (CHR 0x3D) = CHR 0x3D"
  "upperChar (CHR 0x3E) = CHR 0x3E"
  "upperChar (CHR 0x3F) = CHR 0x3F"
  "upperChar (CHR 0x40) = CHR 0x40"
  "upperChar (CHR ''A'') = CHR ''A''"
  "upperChar (CHR ''B'') = CHR ''B''"
  "upperChar (CHR ''C'') = CHR ''C''"
  "upperChar (CHR ''D'') = CHR ''D''"
  "upperChar (CHR ''E'') = CHR ''E''"
  "upperChar (CHR ''F'') = CHR ''F''"
  "upperChar (CHR ''G'') = CHR ''G''"
  "upperChar (CHR ''H'') = CHR ''H''"
  "upperChar (CHR ''I'') = CHR ''I''"
  "upperChar (CHR ''J'') = CHR ''J''"
  "upperChar (CHR ''K'') = CHR ''K''"
  "upperChar (CHR ''L'') = CHR ''L''"
  "upperChar (CHR ''M'') = CHR ''M''"
  "upperChar (CHR ''N'') = CHR ''N''"
  "upperChar (CHR ''O'') = CHR ''O''"
  "upperChar (CHR ''P'') = CHR ''P''"
  "upperChar (CHR ''Q'') = CHR ''Q''"
  "upperChar (CHR ''R'') = CHR ''R''"
  "upperChar (CHR ''S'') = CHR ''S''"
  "upperChar (CHR ''T'') = CHR ''T''"
  "upperChar (CHR ''U'') = CHR ''U''"
  "upperChar (CHR ''V'') = CHR ''V''"
  "upperChar (CHR ''W'') = CHR ''W''"
  "upperChar (CHR ''X'') = CHR ''X''"
  "upperChar (CHR ''Y'') = CHR ''Y''"
  "upperChar (CHR ''Z'') = CHR ''Z''"
  "upperChar (CHR 0x5B) = CHR 0x5B"
  "upperChar (CHR 0x5C) = CHR 0x5C"
  "upperChar (CHR 0x5D) = CHR 0x5D"
  "upperChar (CHR 0x5E) = CHR 0x5E"
  "upperChar (CHR 0x5F) = CHR 0x5F"
  "upperChar (CHR 0x60) = CHR 0x60"
  "upperChar (CHR ''a'') = CHR ''A''"
  "upperChar (CHR ''b'') = CHR ''B''"
  "upperChar (CHR ''c'') = CHR ''C''"
  "upperChar (CHR ''d'') = CHR ''D''"
  "upperChar (CHR ''e'') = CHR ''E''"
  "upperChar (CHR ''f'') = CHR ''F''"
  "upperChar (CHR ''g'') = CHR ''G''"
  "upperChar (CHR ''h'') = CHR ''H''"
  "upperChar (CHR ''i'') = CHR ''I''"
  "upperChar (CHR ''j'') = CHR ''J''"
  "upperChar (CHR ''k'') = CHR ''K''"
  "upperChar (CHR ''l'') = CHR ''L''"
  "upperChar (CHR ''m'') = CHR ''M''"
  "upperChar (CHR ''n'') = CHR ''N''"
  "upperChar (CHR ''o'') = CHR ''O''"
  "upperChar (CHR ''p'') = CHR ''P''"
  "upperChar (CHR ''q'') = CHR ''Q''"
  "upperChar (CHR ''r'') = CHR ''R''"
  "upperChar (CHR ''s'') = CHR ''S''"
  "upperChar (CHR ''t'') = CHR ''T''"
  "upperChar (CHR ''u'') = CHR ''U''"
  "upperChar (CHR ''v'') = CHR ''V''"
  "upperChar (CHR ''w'') = CHR ''W''"
  "upperChar (CHR ''x'') = CHR ''X''"
  "upperChar (CHR ''y'') = CHR ''Y''"
  "upperChar (CHR ''z'') = CHR ''Z''"
  "upperChar (CHR 0x7B) = CHR 0x7B"
  "upperChar (CHR 0x7C) = CHR 0x7C"
  "upperChar (CHR 0x7D) = CHR 0x7D"
  "upperChar (CHR 0x7E) = CHR 0x7E"
  by (simp_all add: upperChar_def)

lemma startsWithCI_simps:
  "startsWithCI [] s = True"
  "startsWithCI (p # ps) [] = False"
  "startsWithCI (p # ps) (c # cs) = (upperChar p = upperChar c \<and> startsWithCI ps cs)"
  by (auto simp add: startsWithCI_def toUpperCase_def)

lemmas rss_defs = matchItemAt_def matchTagAt_def startsWithCI_simps upperChar_table
  wordBoundary_def isWordChar_def pickTag_def pickAll_def pickAttr_def trim_def isSpace_def
  stripTags_def collapseSpaces_def orEmpty_def entities_def startsWith_def

lemma blocks_two_items:
  "itemBlocks twoItems
     = [''<item><title>A</title><pubDate>soon</pubDate></item>'',
        ''<item><title>B</title><pubDate>2025-01-01T00:00:00Z</pubDate></item>'']"
  by (simp add: twoItems_def rss_defs)

lemma item_A:
  "itemOf ''<item><title>A</title><pubDate>soon</pubDate></item>'' = plainItem ''A'' ''soon''"
  by (simp add: itemOf_def plainItem_def rss_defs str_defs)

lemma item_B:
  "itemOf ''<item><title>B</title><pubDate>2025-01-01T00:00:00Z</pubDate></item>''
     = plainItem ''B'' ''2025-01-01T00:00:00Z''"
  by (simp add: itemOf_def plainItem_def rss_defs str_defs)

lemma pub_A: "pubTime utcRuntime (plainItem ''A'' ''soon'') = None"
  by (simp add: pubTime_def plainItem_def parse_defs str_defs utcRuntime_def)

lemma pub_B: "pubTime utcRuntime (plainItem ''B'' ''2025-01-01T00:00:00Z'') = Some 1735689600000"
  by (simp add: pubTime_def plainItem_def parse_defs str_defs)

text \<open>
  C3. The claim has an item whose \<^verbatim>\<open>pubDate\<close> cannot be parsed sorted last. Its comparison
  with any other item is \<open>NaN\<close>, which the sort reads as equal, so the item stays where the
  feed had it: put first, it is returned first, before an item with a date.
\<close>

theorem unparseable_pubDate_sorts_first:
  "parseRSS utcRuntime twoItems
     = [plainItem ''A'' ''soon'', plainItem ''B'' ''2025-01-01T00:00:00Z'']
   \<and> pubTime utcRuntime (plainItem ''A'' ''soon'') = None
   \<and> pubTime utcRuntime (plainItem ''B'' ''2025-01-01T00:00:00Z'') = Some 1735689600000"
  by (simp add: parseRSS_def blocks_two_items item_A item_B sortBy_def cmpPubDate_def pub_A pub_B
      numSub_def nanToZero_def)

section \<open>Markup in the news\<close>

text \<open>
  \<^verbatim>\<open>stripTags\<close> is complete: whatever it is given, its result is free of tags. The steps after
  the removal of the tags keep it so, since none of them produces a \<^verbatim>\<open><\<close> or a \<^verbatim>\<open>>\<close>.
\<close>

lemma tagFree_append_right: "tagFree (xs @ ys) \<Longrightarrow> tagFree ys"
  by (induction xs) simp_all

lemma tagFree_append_left: "tagFree (xs @ ys) \<Longrightarrow> tagFree xs"
proof (induction xs)
  case Nil
  show ?case by simp
next
  case (Cons x xs)
  then have t: "tagFree xs" by simp
  have "xs = [] \<or> hd xs = CHR ''>'' \<or> CHR ''>'' \<notin> set xs" if "x = CHR ''<''"
    using Cons.prems that by (cases xs) auto
  then show ?case using t by simp
qed

lemma indexOf_None_iff: "indexOf c s = None \<longleftrightarrow> c \<notin> set s"
  by (induction s) auto

lemma set_removeTags: "set (removeTags s) \<subseteq> set s"
proof (induction s rule: removeTags.induct)
  case 1
  show ?case by simp
next
  case (2 c cs)
  show ?case
  proof (cases "c = CHR ''<'' \<and> cs \<noteq> [] \<and> hd cs \<noteq> CHR ''>''")
    case False
    then show ?thesis using 2 by auto
  next
    case True
    show ?thesis
    proof (cases "indexOf (CHR ''>'') (tl cs)")
      case None
      then show ?thesis using True 2 by auto
    next
      case (Some i)
      have "set (drop (i + 1) (tl cs)) \<subseteq> set (tl cs)" by (rule set_drop_subset)
      moreover have "set (tl cs) \<subseteq> set cs" using True by (cases cs) auto
      ultimately have "set (drop (i + 1) (tl cs)) \<subseteq> set cs" by (rule subset_trans)
      then show ?thesis using True Some 2 by auto
    qed
  qed
qed

lemma tagFree_removeTags: "tagFree (removeTags s)"
proof (induction s rule: removeTags.induct)
  case 1
  show ?case by simp
next
  case (2 c cs)
  show ?case
  proof (cases "c = CHR ''<'' \<and> cs \<noteq> [] \<and> hd cs \<noteq> CHR ''>''")
    case True
    show ?thesis
    proof (cases "indexOf (CHR ''>'') (tl cs)")
      case None
      then have "CHR ''>'' \<notin> set (tl cs)" by (simp add: indexOf_None_iff)
      with True have "CHR ''>'' \<notin> set cs" by (cases cs) auto
      then have "CHR ''>'' \<notin> set (removeTags cs)" using set_removeTags [of cs] by auto
      then show ?thesis using True None 2 by simp
    next
      case (Some i)
      then show ?thesis using True 2 by simp
    qed
  next
    case False
    have "removeTags cs = [] \<or> hd (removeTags cs) = CHR ''>''" if "c = CHR ''<''"
    proof (cases cs)
      case Nil
      then show ?thesis by simp
    next
      case (Cons d ds)
      with False that have "d = CHR ''>''" by simp
      then show ?thesis using Cons by simp
    qed
    then show ?thesis using False 2 by auto
  qed
qed

lemma gt_not_space: "\<not> isSpace (CHR ''>'')" "\<not> isSpace (CHR ''<'')" "CHR ''>'' \<noteq> SP"
  "CHR ''>'' \<noteq> CR" "CHR ''>'' \<noteq> LF" "CHR ''<'' \<noteq> CR" "CHR ''<'' \<noteq> LF"
  by (simp_all add: isSpace_def CR_def LF_def TAB_def SP_def)

lemma set_breaksToSpaces: "set (breaksToSpaces s) \<subseteq> insert SP (set s)"
  by (induction s rule: breaksToSpaces.induct) (auto split: if_splits dest: list.set_sel(2))

lemma hd_breaksToSpaces:
  "s \<noteq> [] \<Longrightarrow> hd s = CHR ''>'' \<Longrightarrow> breaksToSpaces s \<noteq> [] \<and> hd (breaksToSpaces s) = CHR ''>''"
  by (cases s) (simp_all add: gt_not_space)

lemma tagFree_breaksToSpaces: "tagFree s \<Longrightarrow> tagFree (breaksToSpaces s)"
proof (induction s rule: breaksToSpaces.induct)
  case 1
  show ?case by simp
next
  case (2 c cs)
  show ?case
  proof (cases "c = CHR ''<''")
    case True
    from 2(4) True have ok: "cs = [] \<or> hd cs = CHR ''>'' \<or> CHR ''>'' \<notin> set cs"
      and t: "tagFree cs" by simp_all
    have ih: "tagFree (breaksToSpaces cs)" using 2(3) True t by (simp add: gt_not_space)
    have "breaksToSpaces cs = [] \<or> hd (breaksToSpaces cs) = CHR ''>''
        \<or> CHR ''>'' \<notin> set (breaksToSpaces cs)"
    proof (cases "cs = []")
      case True
      then show ?thesis by simp
    next
      case False
      show ?thesis
      proof (cases "hd cs = CHR ''>''")
        case True
        then show ?thesis using hd_breaksToSpaces [OF False] by simp
      next
        case False
        with ok \<open>cs \<noteq> []\<close> have "CHR ''>'' \<notin> set cs" by simp
        then have "CHR ''>'' \<notin> set (breaksToSpaces cs)"
          using set_breaksToSpaces [of cs] gt_not_space(3) by auto
        then show ?thesis by simp
      qed
    qed
    then show ?thesis using True ih by (simp add: gt_not_space)
  next
    case False
    from 2(4) have t: "tagFree cs" by simp
    show ?thesis
    proof (cases "c = CR \<and> cs \<noteq> [] \<and> hd cs = LF")
      case True
      then obtain ds where cs: "cs = LF # ds" by (cases cs) auto
      then have "tagFree (tl cs)" using t by (simp add: gt_not_space LF_def)
      then show ?thesis using True 2(1) by (simp add: SP_def)
    next
      case nb: False
      show ?thesis
      proof (cases "c = LF \<or> c = CR")
        case True
        then show ?thesis using nb 2(2) t by (auto simp add: SP_def)
      next
        case False
        then show ?thesis using nb 2(3) t \<open>c \<noteq> CHR ''<''\<close> by auto
      qed
    qed
  qed
qed

lemma set_collapseFrom: "set (collapseFrom b s) \<subseteq> insert SP (set s)"
  by (induction b s rule: collapseFrom.induct) (auto split: if_splits)

lemma hd_collapseFrom:
  "s \<noteq> [] \<Longrightarrow> hd s = CHR ''>'' \<Longrightarrow> collapseFrom b s \<noteq> [] \<and> hd (collapseFrom b s) = CHR ''>''"
  by (cases s) (simp_all add: gt_not_space)

lemma tagFree_collapseFrom: "tagFree s \<Longrightarrow> tagFree (collapseFrom b s)"
proof (induction b s rule: collapseFrom.induct)
  case (1 inRun)
  show ?case by simp
next
  case (2 inRun c cs)
  from 2(4) have t: "tagFree cs" by simp
  show ?case
  proof (cases "isSpace c")
    case True
    then show ?thesis using 2(1,2) t by (auto simp add: SP_def)
  next
    case False
    have ih: "tagFree (collapseFrom False cs)" using 2(3) False t by simp
    have "collapseFrom False cs = [] \<or> hd (collapseFrom False cs) = CHR ''>''
        \<or> CHR ''>'' \<notin> set (collapseFrom False cs)" if lt: "c = CHR ''<''"
    proof -
      from 2(4) lt have ok: "cs = [] \<or> hd cs = CHR ''>'' \<or> CHR ''>'' \<notin> set cs" by simp
      show ?thesis
      proof (cases "cs = []")
        case True
        then show ?thesis by simp
      next
        case ne: False
        show ?thesis
        proof (cases "hd cs = CHR ''>''")
          case True
          then show ?thesis using hd_collapseFrom [OF ne] by simp
        next
          case False
          with ok ne have "CHR ''>'' \<notin> set cs" by simp
          then have "CHR ''>'' \<notin> set (collapseFrom False cs)"
            using set_collapseFrom [of False cs] gt_not_space(3) by auto
          then show ?thesis by simp
        qed
      qed
    qed
    then show ?thesis using False ih by simp
  qed
qed

lemma tagFree_trim: "tagFree s \<Longrightarrow> tagFree (trim s)"
proof -
  assume a: "tagFree s"
  define t where "t = dropWhile isSpace s"
  have "s = takeWhile isSpace s @ t" by (simp add: t_def)
  then have tt: "tagFree t" using a tagFree_append_right by metis
  have "rev t = takeWhile isSpace (rev t) @ dropWhile isSpace (rev t)" by simp
  then have "rev (rev t) = rev (takeWhile isSpace (rev t) @ dropWhile isSpace (rev t))"
    by (rule arg_cong)
  then have "t = rev (dropWhile isSpace (rev t)) @ rev (takeWhile isSpace (rev t))"
    by (simp only: rev_rev_ident rev_append)
  then have "tagFree (rev (dropWhile isSpace (rev t)))" using tt tagFree_append_left by metis
  then show ?thesis by (simp add: trim_def t_def)
qed

lemma tagFree_stripTags: "tagFree (stripTags s)"
  unfolding stripTags_def collapseSpaces_def
  by (intro tagFree_trim tagFree_collapseFrom tagFree_breaksToSpaces tagFree_removeTags)

text \<open>
  Markup that the feed carries as it is, here inside a \<^verbatim>\<open>CDATA\<close> section, is stripped: the
  title is the text alone.
\<close>

lemma literal_markup_stripped:
  "map title (parseRSS rt ''<item><title><![CDATA[<b>Goal!</b> Report]]></title></item>'')
     = [''Goal! Report'']"
  by (simp add: parseRSS_def sortBy_def itemOf_def rss_defs str_defs)

lemma blocks_escaped: "itemBlocks escapedItem = [escapedItem]"
  by (simp add: escapedItem_def rss_defs)

lemma item_escaped: "itemOf escapedItem = plainItem ''<b>Goal!</b> Report'' []"
  by (simp add: itemOf_def plainItem_def escapedItem_def rss_defs str_defs)

text \<open>
  C5. The claim has no markup in the title, the description and the categories of an item.
  The entities are decoded after the tags are stripped, and what the decoding produces is
  not stripped again: for the item
  \<^verbatim>\<open><item><title>&lt;b&gt;Goal!&lt;/b&gt; Report</title></item>\<close>, whose title carries its markup
  escaped, the title that is returned is \<^verbatim>\<open><b>Goal!</b> Report\<close>. It holds two tags, which
  \<^verbatim>\<open>stripTags\<close> itself would remove.
\<close>

theorem escaped_markup_in_title:
  "parseRSS rt escapedItem = [plainItem ''<b>Goal!</b> Report'' []]
   \<and> stripTags ''<b>Goal!</b> Report'' = ''Goal! Report''
   \<and> \<not> tagFree ''<b>Goal!</b> Report''"
  by (simp add: parseRSS_def blocks_escaped item_escaped sortBy_def rss_defs str_defs)

end
